theory Spec2Isabelle
  imports Main "HOL-Library.Word" "HOL-Library.Char_ord" "HOL-Library.List_Lexorder"
    "HOL-Library.Multiset"
begin

section \<open>JavaScript strings and values\<close>

text \<open>
  A JavaScript string is a sequence of UTF-16 code units, and \<open>length\<close> counts code
  units. Literals of the source are ASCII, written here through \<open>lit\<close>.
\<close>

type_synonym js_string = "16 word list"

definition lit :: "string \<Rightarrow> js_string" where
  "lit s = map of_char s"

text \<open>
  \<open>String.prototype.trim\<close> strips WhiteSpace and LineTerminator code points from both
  ends: TAB, LF, VT, FF, CR, SP, NBSP, the Unicode space separators (category Zs), LS, PS
  and the byte order mark.
\<close>

definition is_ws :: "16 word \<Rightarrow> bool" where
  "is_ws c \<longleftrightarrow>
     c = 0x0009 \<or> c = 0x000A \<or> c = 0x000B \<or> c = 0x000C \<or> c = 0x000D \<or> c = 0x0020 \<or>
     c = 0x00A0 \<or> c = 0x1680 \<or> (0x2000 \<le> c \<and> c \<le> 0x200A) \<or> c = 0x2028 \<or> c = 0x2029 \<or>
     c = 0x202F \<or> c = 0x205F \<or> c = 0x3000 \<or> c = 0xFEFF"

definition trim :: "js_string \<Rightarrow> js_string" where
  "trim s = rev (dropWhile is_ws (rev (dropWhile is_ws s)))"

text \<open>\<open>String.prototype.includes\<close> (a reserved word here, hence \<open>includes_js\<close>): does the pattern occur at some position of the string.\<close>

fun starts_with :: "js_string \<Rightarrow> js_string \<Rightarrow> bool" where
  "starts_with s [] = True"
| "starts_with [] (p # ps) = False"
| "starts_with (c # cs) (p # ps) = (c = p \<and> starts_with cs ps)"

fun includes_js :: "js_string \<Rightarrow> js_string \<Rightarrow> bool" where
  "includes_js [] p = starts_with [] p"
| "includes_js (c # cs) p = (starts_with (c # cs) p \<or> includes_js cs p)"

text \<open>
  The values a JSON request body can put in \<open>req.body.title\<close>; \<open>JUndefined\<close> is the
  absent property. Of a number the handler reads only whether it is zero.
\<close>

datatype js_value =
    JUndefined
  | JNull
  | JBoolean bool
  | JNumber int
  | JString js_string
  | JObject
  | JArray

fun falsy :: "js_value \<Rightarrow> bool" where
  "falsy JUndefined = True"
| "falsy JNull = True"
| "falsy (JBoolean b) = (\<not> b)"
| "falsy (JNumber n) = (n = 0)"
| "falsy (JString s) = (s = [])"
| "falsy JObject = False"
| "falsy JArray = False"

fun typeof :: "js_value \<Rightarrow> string" where
  "typeof JUndefined = ''undefined''"
| "typeof JNull = ''object''"
| "typeof (JBoolean b) = ''boolean''"
| "typeof (JNumber n) = ''number''"
| "typeof (JString s) = ''string''"
| "typeof JObject = ''object''"
| "typeof JArray = ''object''"

section \<open>Title validation\<close>

text \<open>
  \<^verbatim>\<open>
  function validateTaskTitle(title) {
      if (!title || typeof title !== 'string') { return false; }
      if (title.length < 1 || title.length > 200) { return false; }
      if (title.includes('<script') || title.includes('javascript:')) { return false; }
      return true;
  }
  \<close>
  The length test reads the title as received; trimming happens later, in the handler.
\<close>

definition validateTaskTitle :: "js_value \<Rightarrow> bool" where
  "validateTaskTitle title =
     (if falsy title \<or> typeof title \<noteq> ''string'' then False
      else case title of
        JString s \<Rightarrow>
          if length s < 1 \<or> length s > 200 then False
          else if includes_js s (lit ''<script'') \<or> includes_js s (lit ''javascript:'') then False
          else True
      | _ \<Rightarrow> False)"

section \<open>Timestamps\<close>

text \<open>
  The table's \<open>created_at\<close> column defaults to SQLite's \<open>CURRENT_TIMESTAMP\<close>, the text
  \<open>YYYY-MM-DD HH:MM:SS\<close> in UTC, while the handler answers with
  \<open>new Date().toISOString()\<close>, the text \<open>YYYY-MM-DDTHH:mm:ss.sssZ\<close>. Both render a
  reading of the clock, counted from 1970-01-01T00:00:00Z; the civil date of a day number
  is computed in the proleptic Gregorian calendar.
\<close>

definition digit_char :: "nat \<Rightarrow> char" where
  "digit_char n = ''0123456789'' ! (n mod 10)"

definition pad2 :: "nat \<Rightarrow> string" where
  "pad2 n = [digit_char (n div 10), digit_char n]"

definition pad3 :: "nat \<Rightarrow> string" where
  "pad3 n = [digit_char (n div 100), digit_char (n div 10), digit_char n]"

definition pad4 :: "nat \<Rightarrow> string" where
  "pad4 n = [digit_char (n div 1000), digit_char (n div 100), digit_char (n div 10), digit_char n]"

definition pad6 :: "nat \<Rightarrow> string" where
  "pad6 n = [digit_char (n div 100000), digit_char (n div 10000), digit_char (n div 1000),
             digit_char (n div 100), digit_char (n div 10), digit_char n]"

definition civil_from_days :: "nat \<Rightarrow> nat \<times> nat \<times> nat" where
  "civil_from_days days =
     (let z = days + 719468;
          era = z div 146097;
          doe = z mod 146097;
          yoe = (doe - doe div 1460 + doe div 36524 - doe div 146096) div 365;
          doy = doe - (365 * yoe + yoe div 4 - yoe div 100);
          mp = (5 * doy + 2) div 153;
          d = doy - (153 * mp + 2) div 5 + 1;
          m = (if mp < 10 then mp + 3 else mp - 9);
          y = yoe + era * 400 + (if m \<le> 2 then 1 else 0)
      in (y, m, d))"

definition clock_text :: "nat \<Rightarrow> string" where
  "clock_text secs =
     pad2 (secs div 3600 mod 24) @ '':'' @ pad2 (secs div 60 mod 60) @ '':'' @ pad2 (secs mod 60)"

text \<open>SQLite's \<open>CURRENT_TIMESTAMP\<close> at \<open>secs\<close> seconds after the epoch.\<close>

definition current_timestamp :: "nat \<Rightarrow> string" where
  "current_timestamp secs =
     (case civil_from_days (secs div 86400) of
        (y, m, d) \<Rightarrow> pad4 y @ ''-'' @ pad2 m @ ''-'' @ pad2 d @ '' '' @ clock_text secs)"

text \<open>
  \<open>Date.prototype.toISOString\<close> at \<open>ms\<close> milliseconds after the epoch; years beyond
  9999 take the expanded form with a sign and six digits.
\<close>

definition toISOString :: "nat \<Rightarrow> string" where
  "toISOString ms =
     (case civil_from_days (ms div 86400000) of
        (y, m, d) \<Rightarrow>
          (if y \<le> 9999 then pad4 y else ''+'' @ pad6 y) @ ''-'' @ pad2 m @ ''-'' @ pad2 d @
          ''T'' @ clock_text (ms div 1000) @ ''.'' @ pad3 (ms mod 1000) @ ''Z'')"

section \<open>The task store\<close>

text \<open>
  \<^verbatim>\<open>
  CREATE TABLE IF NOT EXISTS tasks (
      id INTEGER PRIMARY KEY AUTOINCREMENT,
      title TEXT NOT NULL,
      completed BOOLEAN DEFAULT FALSE,
      created_at DATETIME DEFAULT CURRENT_TIMESTAMP)
  \<close>
  A row of the table, and the JSON object of a task response, have the same four fields.
  SQLite keeps \<open>completed\<close> as the integer 0 or 1, read here as a truth value. The table
  is kept in rowid order; \<open>seq\<close> is the largest rowid ever handed out, which
  \<open>AUTOINCREMENT\<close> records so that an id is never used twice.
\<close>

record task =
  id_of :: nat
  title :: js_string
  completed :: bool
  created_at :: string

record database =
  tasks :: "task list"
  seq :: nat

definition empty_db :: database where
  "empty_db = \<lparr>tasks = [], seq = 0\<rparr>"

text \<open>
  What a request finds outside the store: whether SQLite reports an error for the
  statement (the \<open>err\<close> argument of the callback), SQLite's clock in seconds and the
  JavaScript clock in milliseconds.
\<close>

record env =
  db_err :: bool
  db_clock :: nat
  js_clock :: nat

datatype error = InvalidTitle | InvalidTaskId | TaskNotFound | DatabaseError

fun status :: "error \<Rightarrow> nat" where
  "status InvalidTitle = 400"
| "status InvalidTaskId = 400"
| "status TaskNotFound = 404"
| "status DatabaseError = 500"

fun message :: "error \<Rightarrow> string" where
  "message InvalidTitle = ''Invalid title. Must be 1-200 characters and contain no scripts.''"
| "message InvalidTaskId = ''Invalid task ID''"
| "message TaskNotFound = ''Task not found''"
| "message DatabaseError = ''Database error''"

subsection \<open>The SQL statements\<close>

definition max_rowid :: nat where
  "max_rowid = 2 ^ 63 - 1"

text \<open>
  \<open>db.run\<close> binds a JavaScript string to the statement as UTF-8 text, and the listing
  reads the text back as a string. A high surrogate followed by a low one is a code point
  and comes back as it went in; a surrogate code unit without its partner has no UTF-8
  form and is kept as U+FFFD.
\<close>

definition is_high :: "16 word \<Rightarrow> bool" where
  "is_high c \<longleftrightarrow> 0xD800 \<le> c \<and> c \<le> 0xDBFF"

definition is_low :: "16 word \<Rightarrow> bool" where
  "is_low c \<longleftrightarrow> 0xDC00 \<le> c \<and> c \<le> 0xDFFF"

fun utf8_text :: "js_string \<Rightarrow> js_string" where
  "utf8_text [] = []"
| "utf8_text [c] = [if is_high c \<or> is_low c then 0xFFFD else c]"
| "utf8_text (c # d # cs) =
     (if is_high c \<and> is_low d then c # d # utf8_text cs
      else (if is_high c \<or> is_low c then 0xFFFD else c) # utf8_text (d # cs))"

text \<open>
  \<open>INSERT INTO tasks (title) VALUES (?)\<close>: the new row takes the next rowid, the bound
  title as text and the column defaults. The result is \<open>this.lastID\<close> and the new table,
  or \<open>None\<close> when SQLite reports an error, as it does once the largest rowid has been
  used.
\<close>

definition sql_insert :: "env \<Rightarrow> js_string \<Rightarrow> database \<Rightarrow> (nat \<times> database) option" where
  "sql_insert e t db =
     (if db_err e \<or> seq db \<ge> max_rowid then None
      else let lastID = seq db + 1;
               row = \<lparr>id_of = lastID, title = utf8_text t, completed = False,
                      created_at = current_timestamp (db_clock e)\<rparr>
           in Some (lastID, \<lparr>tasks = tasks db @ [row], seq = lastID\<rparr>))"

text \<open>
  The handlers bind the path parameter, a string of decimal digits, to \<open>WHERE id = ?\<close>.
  Compared with the integer column, SQLite reads the text as a number; a value beyond
  the largest rowid equals no id.
\<close>

definition digit_value :: "16 word \<Rightarrow> nat" where
  "digit_value c = unat c - 48"

definition decimal_value :: "js_string \<Rightarrow> nat" where
  "decimal_value s = foldl (\<lambda>acc c. 10 * acc + digit_value c) 0 s"

definition id_matches :: "js_string \<Rightarrow> task \<Rightarrow> bool" where
  "id_matches s row \<longleftrightarrow> decimal_value s \<le> max_rowid \<and> id_of row = decimal_value s"

text \<open>
  \<open>UPDATE tasks SET completed = NOT completed WHERE id = ?\<close> and
  \<open>DELETE FROM tasks WHERE id = ?\<close>: the result is \<open>this.changes\<close>, the number of rows
  the statement touched, and the new table.
\<close>

definition sql_toggle :: "env \<Rightarrow> js_string \<Rightarrow> database \<Rightarrow> (nat \<times> database) option" where
  "sql_toggle e s db =
     (if db_err e then None
      else Some (length (filter (id_matches s) (tasks db)),
                 db\<lparr>tasks := map (\<lambda>row. if id_matches s row
                                         then row\<lparr>completed := \<not> completed row\<rparr> else row)
                                  (tasks db)\<rparr>))"

definition sql_delete :: "env \<Rightarrow> js_string \<Rightarrow> database \<Rightarrow> (nat \<times> database) option" where
  "sql_delete e s db =
     (if db_err e then None
      else Some (length (filter (id_matches s) (tasks db)),
                 db\<lparr>tasks := filter (\<lambda>row. \<not> id_matches s row) (tasks db)\<rparr>))"

text \<open>
  \<open>SELECT * FROM tasks ORDER BY created_at DESC\<close>: the rows are scanned in rowid order
  and sorted on the \<open>created_at\<close> text alone, compared byte by byte, larger first. The
  statement names no second key, and SQLite's sorter leaves rows with equal keys in the
  order of the scan.
\<close>

fun insert_desc :: "task \<Rightarrow> task list \<Rightarrow> task list" where
  "insert_desc r [] = [r]"
| "insert_desc r (x # xs) =
     (if created_at x \<le> created_at r then r # x # xs else x # insert_desc r xs)"

definition order_by_created_at_desc :: "task list \<Rightarrow> task list" where
  "order_by_created_at_desc rows = foldr insert_desc rows []"

definition sql_select :: "env \<Rightarrow> database \<Rightarrow> task list option" where
  "sql_select e db = (if db_err e then None else Some (order_by_created_at_desc (tasks db)))"

section \<open>The request handlers\<close>

text \<open>
  \<^verbatim>\<open>
  app.get('/api/tasks', (req, res) => {
      db.all('SELECT * FROM tasks ORDER BY created_at DESC', (err, rows) => {
          if (err) { return res.status(500).json({ error: 'Database error' }); }
          res.json(rows);
      });
  });
  \<close>
\<close>

definition get_tasks :: "env \<Rightarrow> database \<Rightarrow> error + task list" where
  "get_tasks e db =
     (case sql_select e db of
        None \<Rightarrow> Inl DatabaseError
      | Some rows \<Rightarrow> Inr rows)"

text \<open>
  \<^verbatim>\<open>
  app.post('/api/tasks', (req, res) => {
      const { title } = req.body;
      if (!validateTaskTitle(title)) { return res.status(400).json({ error: 'Invalid title. ...' }); }
      const sanitizedTitle = title.trim();
      db.run('INSERT INTO tasks (title) VALUES (?)', [sanitizedTitle], function(err) {
          if (err) { return res.status(500).json({ error: 'Database error' }); }
          res.json({ id: this.lastID, title: sanitizedTitle, completed: false,
                     created_at: new Date().toISOString() });
      });
  });
  \<close>
  The handler returns its response and the store it leaves behind.
\<close>

definition post_tasks :: "env \<Rightarrow> js_value \<Rightarrow> database \<Rightarrow> (error + task) \<times> database" where
  "post_tasks e title_v db =
     (if \<not> validateTaskTitle title_v then (Inl InvalidTitle, db)
      else case title_v of
        JString s \<Rightarrow>
          (let sanitizedTitle = trim s in
           case sql_insert e sanitizedTitle db of
             None \<Rightarrow> (Inl DatabaseError, db)
           | Some (lastID, db') \<Rightarrow>
               (Inr \<lparr>id_of = lastID, title = sanitizedTitle, completed = False,
                     created_at = toISOString (js_clock e)\<rparr>, db'))
      | _ \<Rightarrow> (Inl InvalidTitle, db))"

text \<open>
  \<open>res.json\<close> writes the \<open>completed\<close> field of the object this handler builds as the
  boolean it holds, and the \<open>completed\<close> field of a row of the listing as the integer that
  SQLite holds, 0 or 1.
\<close>

definition posted_completed_json :: "task \<Rightarrow> js_value" where
  "posted_completed_json t = JBoolean (completed t)"

definition listed_completed_json :: "task \<Rightarrow> js_value" where
  "listed_completed_json row = JNumber (if completed row then 1 else 0)"

text \<open>
  The test \<open>/^\d+$/.test(id)\<close>: from the start of the string one decimal digit, then as
  many digits as follow, then the end of the string.
\<close>

definition is_digit :: "16 word \<Rightarrow> bool" where
  "is_digit c \<longleftrightarrow> 0x30 \<le> c \<and> c \<le> 0x39"

fun test_digits :: "js_string \<Rightarrow> bool" where
  "test_digits [] = False"
| "test_digits (c # cs) = (is_digit c \<and> dropWhile is_digit cs = [])"

text \<open>
  \<^verbatim>\<open>
  app.put('/api/tasks/:id/toggle', (req, res) => {
      const { id } = req.params;
      if (!/^\d+$/.test(id)) { return res.status(400).json({ error: 'Invalid task ID' }); }
      db.run('UPDATE tasks SET completed = NOT completed WHERE id = ?', [id], function(err) {
          if (err) { return res.status(500).json({ error: 'Database error' }); }
          if (this.changes === 0) { return res.status(404).json({ error: 'Task not found' }); }
          res.json({ success: true });
      });
  });
  \<close>
  and the same for \<open>app.delete('/api/tasks/:id', ...)\<close> with the \<open>DELETE\<close> statement.
\<close>

datatype ack = Success

definition put_toggle :: "env \<Rightarrow> js_string \<Rightarrow> database \<Rightarrow> (error + ack) \<times> database" where
  "put_toggle e id_param db =
     (if \<not> test_digits id_param then (Inl InvalidTaskId, db)
      else case sql_toggle e id_param db of
        None \<Rightarrow> (Inl DatabaseError, db)
      | Some (changes, db') \<Rightarrow>
          if changes = 0 then (Inl TaskNotFound, db') else (Inr Success, db'))"

definition delete_task :: "env \<Rightarrow> js_string \<Rightarrow> database \<Rightarrow> (error + ack) \<times> database" where
  "delete_task e id_param db =
     (if \<not> test_digits id_param then (Inl InvalidTaskId, db)
      else case sql_delete e id_param db of
        None \<Rightarrow> (Inl DatabaseError, db)
      | Some (changes, db') \<Rightarrow>
          if changes = 0 then (Inl TaskNotFound, db') else (Inr Success, db'))"

section \<open>The client's rendering\<close>

text \<open>
  \<^verbatim>\<open>
  function escapeHtml(unsafe) {
      return unsafe.replace(/&/g, "&amp;").replace(/</g, "&lt;").replace(/>/g, "&gt;")
                   .replace(/"/g, "&quot;").replace(/'/g, "&#039;");
  }
  \<close>
  Each \<open>replace\<close> with a global one-character pattern substitutes every occurrence of
  that code unit; none of the replacement texts holds a \<open>$\<close> pattern.
\<close>

definition replace_all :: "16 word \<Rightarrow> js_string \<Rightarrow> js_string \<Rightarrow> js_string" where
  "replace_all c rep s = concat (map (\<lambda>x. if x = c then rep else [x]) s)"

definition escapeHtml :: "js_string \<Rightarrow> js_string" where
  "escapeHtml unsafe =
     replace_all 0x27 (lit ''&#039;'')
       (replace_all 0x22 (lit ''&quot;'')
         (replace_all 0x3E (lit ''&gt;'')
           (replace_all 0x3C (lit ''&lt;'')
             (replace_all 0x26 (lit ''&amp;'') unsafe))))"

text \<open>A number interpolated into a template literal is written in decimal.\<close>

fun decimal_text :: "nat \<Rightarrow> string" where
  "decimal_text n =
     (if n < 10 then [digit_char n] else decimal_text (n div 10) @ [digit_char n])"

text \<open>
  \<open>renderTasks\<close> computes the markup assigned to \<open>taskList.innerHTML\<close>: the empty-state
  block for an empty mirror, else one block per task, joined without a separator. The
  task's id, completion flag and date are interpolated as they are; the title goes
  through \<open>escapeHtml\<close>. \<open>formatDate\<close> renders through the browser's locale data and time
  zone, and is a parameter here.
\<close>

definition empty_state :: js_string where
  \<open>empty_state = lit (''\<newline>            <div class="empty-state">'' @
     ''\<newline>                <h3>No tasks yet!</h3>'' @
     ''\<newline>                <p>Add your first task above to get started.</p>'' @
     ''\<newline>            </div>\<newline>        '')\<close>

definition render_task :: "(string \<Rightarrow> js_string) \<Rightarrow> task \<Rightarrow> js_string" where
  \<open>render_task formatDate task =
     lit ''\<newline>        <div class="task-item '' @
     lit (if completed task then ''completed'' else []) @
     lit ''" data-task-id="'' @ lit (decimal_text (id_of task)) @ lit ''">'' @
     lit ''\<newline>            <div class="task-checkbox '' @
     lit (if completed task then ''checked'' else []) @
     lit ''" \<newline>                 onclick="toggleTask('' @
     lit (decimal_text (id_of task)) @ lit '')"></div>'' @
     lit ''\<newline>            <div class="task-title '' @
     lit (if completed task then ''completed'' else []) @
     lit ''">'' @ escapeHtml (title task) @ lit ''</div>'' @
     lit ''\<newline>            <div class="task-date">'' @ formatDate (created_at task) @
     lit ''</div>'' @
     lit ''\<newline>            <div class="task-actions">'' @
     lit ''\<newline>                <button class="btn-small btn-delete" onclick="deleteTask('' @
     lit (decimal_text (id_of task)) @ lit '')">Delete</button>'' @
     lit ''\<newline>            </div>'' @
     lit ''\<newline>        </div>\<newline>    ''\<close>

definition renderTasks :: "(string \<Rightarrow> js_string) \<Rightarrow> task list \<Rightarrow> js_string" where
  "renderTasks formatDate ts =
     (if length ts = 0 then empty_state else concat (map (render_task formatDate) ts))"

text \<open>The four characters that open or close a tag or an attribute value.\<close>

definition is_markup :: "16 word \<Rightarrow> bool" where
  "is_markup c \<longleftrightarrow> c = 0x3C \<or> c = 0x3E \<or> c = 0x22 \<or> c = 0x27"

section \<open>Notions used by the properties\<close>

text \<open>
  The stores that requests can produce keep their ids distinct, positive and at most
  \<open>seq\<close>.
\<close>

definition store_ok :: "database \<Rightarrow> bool" where
  "store_ok db \<longleftrightarrow>
     distinct (map id_of (tasks db)) \<and>
     list_all (\<lambda>row. 1 \<le> id_of row \<and> id_of row \<le> seq db) (tasks db) \<and>
     seq db \<le> max_rowid"

text \<open>The half of the title invariant that every request keeps.\<close>

definition titles_bounded :: "database \<Rightarrow> bool" where
  "titles_bounded db \<longleftrightarrow> list_all (\<lambda>row. length (title row) \<le> 200) (tasks db)"

text \<open>
  The shape of a timestamp text: in a pattern, \<open>d\<close> stands for a decimal digit and
  every other character for itself.
\<close>

definition is_dec :: "char \<Rightarrow> bool" where
  "is_dec c \<longleftrightarrow> c \<in> set ''0123456789''"

fun shaped :: "string \<Rightarrow> string \<Rightarrow> bool" where
  "shaped [] [] = True"
| "shaped (p # ps) (c # cs) = ((if p = CHR ''d'' then is_dec c else c = p) \<and> shaped ps cs)"
| "shaped [] (c # cs) = False"
| "shaped (p # ps) [] = False"

definition iso8601 :: "string \<Rightarrow> bool" where
  "iso8601 s \<longleftrightarrow>
     shaped ''dddd-dd-ddTdd:dd:dd.dddZ'' s \<or> shaped ''+dddddd-dd-ddTdd:dd:dd.dddZ'' s"

definition sqlite_datetime :: "string \<Rightarrow> bool" where
  "sqlite_datetime s \<longleftrightarrow> shaped ''dddd-dd-dd dd:dd:dd'' s"

definition sorted_desc :: "task list \<Rightarrow> bool" where
  "sorted_desc rows \<longleftrightarrow> sorted_wrt (\<lambda>a b. created_at b \<le> created_at a) rows"

text \<open>
  The order the listing is said to have: newest first, and of two equal timestamps the
  larger id first.
\<close>

definition sorted_desc_id_desc :: "task list \<Rightarrow> bool" where
  "sorted_desc_id_desc rows \<longleftrightarrow>
     sorted_wrt (\<lambda>a b. created_at b < created_at a \<or>
                        (created_at b = created_at a \<and> id_of b < id_of a)) rows"

subsection \<open>Concrete requests\<close>

text \<open>A request served on 2026-11-03 at 11:14:00 UTC, and two later ones.\<close>

definition env0 :: env where
  "env0 = \<lparr>db_err = False, db_clock = 1793704440, js_clock = 1793704440123\<rparr>"

definition env1 :: env where
  "env1 = \<lparr>db_err = False, db_clock = 1793704441, js_clock = 1793704441250\<rparr>"

definition env2 :: env where
  "env2 = \<lparr>db_err = False, db_clock = 1793704442, js_clock = 1793704442500\<rparr>"

text \<open>Two more requests served within the second of \<open>env0\<close>.\<close>

definition env0b :: env where
  "env0b = \<lparr>db_err = False, db_clock = 1793704440, js_clock = 1793704440456\<rparr>"

definition env0c :: env where
  "env0c = \<lparr>db_err = False, db_clock = 1793704440, js_clock = 1793704440789\<rparr>"

text \<open>The store after \<open>Buy milk\<close> has been posted to the empty store at that time.\<close>

definition milk_row :: task where
  "milk_row = \<lparr>id_of = 1, title = lit ''Buy milk'', completed = False,
               created_at = ''2026-11-03 11:14:00''\<rparr>"

definition db_milk :: database where
  "db_milk = \<lparr>tasks = [milk_row], seq = 1\<rparr>"

text \<open>The letter \<open>a\<close>, the high surrogate U+D83D without a low one, the letter \<open>b\<close>.\<close>

definition surrogate_title :: js_string where
  "surrogate_title = [0x61, 0xD83D, 0x62]"

text \<open>A space followed by two hundred letters \<open>a\<close>.\<close>

definition padded_title :: js_string where
  "padded_title = 0x20 # replicate 200 0x61"

section \<open>Properties\<close>

subsection \<open>Strings and validation\<close>

lemma starts_with_iff: "starts_with s p \<longleftrightarrow> (\<exists>suf. s = p @ suf)"
  by (induction s p rule: starts_with.induct) auto

lemma includes_js_iff: "includes_js s p \<longleftrightarrow> (\<exists>pre suf. s = pre @ p @ suf)"
proof (induction s)
  case Nil
  show ?case by (cases p) auto
next
  case (Cons c cs)
  have "(\<exists>pre suf. c # cs = pre @ p @ suf) \<longleftrightarrow>
        (\<exists>suf. c # cs = p @ suf) \<or> (\<exists>pre suf. cs = pre @ p @ suf)"
  proof
    assume "\<exists>pre suf. c # cs = pre @ p @ suf"
    then obtain pre suf where eq: "c # cs = pre @ p @ suf" by blast
    show "(\<exists>suf. c # cs = p @ suf) \<or> (\<exists>pre suf. cs = pre @ p @ suf)"
    proof (cases pre)
      case Nil
      with eq show ?thesis by auto
    next
      case (Cons a pre')
      with eq have "cs = pre' @ p @ suf" by simp
      then show ?thesis by blast
    qed
  next
    assume "(\<exists>suf. c # cs = p @ suf) \<or> (\<exists>pre suf. cs = pre @ p @ suf)"
    then show "\<exists>pre suf. c # cs = pre @ p @ suf"
    proof
      assume "\<exists>suf. c # cs = p @ suf"
      then obtain suf where "c # cs = [] @ p @ suf" by auto
      then show ?thesis by blast
    next
      assume "\<exists>pre suf. cs = pre @ p @ suf"
      then obtain pre suf where "c # cs = (c # pre) @ p @ suf" by auto
      then show ?thesis by blast
    qed
  qed
  with Cons show ?case by (simp add: starts_with_iff)
qed

lemma includes_js_set: "includes_js s p \<Longrightarrow> set p \<subseteq> set s"
  by (auto simp: includes_js_iff)

lemma length_trim_le: "length (trim s) \<le> length s"
proof -
  have "length (trim s) \<le> length (dropWhile is_ws s)"
    unfolding trim_def using length_dropWhile_le [of is_ws "rev (dropWhile is_ws s)"] by simp
  also have "\<dots> \<le> length s" by (rule length_dropWhile_le)
  finally show ?thesis .
qed

lemma trim_Nil_iff: "trim s = [] \<longleftrightarrow> (\<forall>c\<in>set s. is_ws c)"
proof
  assume "trim s = []"
  then have all: "\<forall>c\<in>set (dropWhile is_ws s). is_ws c"
    by (simp add: trim_def dropWhile_eq_Nil_conv)
  have "dropWhile is_ws s = []"
  proof (rule ccontr)
    assume ne: "dropWhile is_ws s \<noteq> []"
    then have "\<not> is_ws (hd (dropWhile is_ws s))" by (rule hd_dropWhile)
    moreover from ne have "hd (dropWhile is_ws s) \<in> set (dropWhile is_ws s)" by (rule hd_in_set)
    ultimately show False using all by blast
  qed
  then show "\<forall>c\<in>set s. is_ws c" by (simp add: dropWhile_eq_Nil_conv)
next
  assume "\<forall>c\<in>set s. is_ws c"
  then show "trim s = []"
    by (auto simp: trim_def dropWhile_eq_Nil_conv dest: set_dropWhileD)
qed

lemma validate_string:
  "validateTaskTitle (JString s) \<longleftrightarrow>
     1 \<le> length s \<and> length s \<le> 200 \<and>
     \<not> includes_js s (lit ''<script'') \<and> \<not> includes_js s (lit ''javascript:'')"
  by (cases s) (auto simp: validateTaskTitle_def)

lemma validate_not_string: "typeof v \<noteq> ''string'' \<Longrightarrow> \<not> validateTaskTitle v"
  by (simp add: validateTaskTitle_def)

lemma validate_is_string: "validateTaskTitle v \<Longrightarrow> \<exists>s. v = JString s"
  by (cases v) (auto simp: validateTaskTitle_def)

lemma civil_epoch: "civil_from_days 0 = (1970, 1, 1)"
  by (simp add: civil_from_days_def Let_def)

lemma civil_leap_day: "civil_from_days 11016 = (2000, 2, 29)"
  by (simp add: civil_from_days_def Let_def)

lemma civil_20760: "civil_from_days 20760 = (2026, 11, 3)"
  by (simp add: civil_from_days_def Let_def)

lemma stamp_env0: "current_timestamp (db_clock env0) = ''2026-11-03 11:14:00''"
  by (simp add: env0_def current_timestamp_def civil_20760 clock_text_def pad2_def pad4_def
      digit_char_def)

lemma iso_env0: "toISOString (js_clock env0) = ''2026-11-03T11:14:00.123Z''"
  by (simp add: env0_def toISOString_def civil_20760 clock_text_def pad2_def pad3_def pad4_def
      digit_char_def)

lemma env0_ok: "\<not> db_err env0"
  by (simp add: env0_def)

lemma trim_space: "trim (lit '' '') = []"
  by (simp add: trim_def lit_def is_ws_def)

lemma length_utf8_text: "length (utf8_text s) = length s"
  by (induction s rule: utf8_text.induct) auto

lemma utf8_text_plain:
  "\<forall>c\<in>set s. \<not> is_high c \<and> \<not> is_low c \<Longrightarrow> utf8_text s = s"
  by (induction s rule: utf8_text.induct) auto

lemma post_valid:
  "validateTaskTitle (JString s) \<Longrightarrow> \<not> db_err e \<Longrightarrow> seq db < max_rowid \<Longrightarrow>
   post_tasks e (JString s) db =
     (Inr \<lparr>id_of = seq db + 1, title = trim s, completed = False,
           created_at = toISOString (js_clock e)\<rparr>,
      \<lparr>tasks = tasks db @ [\<lparr>id_of = seq db + 1, title = utf8_text (trim s), completed = False,
                              created_at = current_timestamp (db_clock e)\<rparr>],
       seq = seq db + 1\<rparr>)"
  by (simp add: post_tasks_def sql_insert_def Let_def)

lemma post_invalid: "\<not> validateTaskTitle v \<Longrightarrow> post_tasks e v db = (Inl InvalidTitle, db)"
  by (simp add: post_tasks_def)

lemma post_success:
  assumes "post_tasks e v db = (Inr t, db')"
  shows "\<exists>s. v = JString s \<and> validateTaskTitle v \<and>
           t = \<lparr>id_of = seq db + 1, title = trim s, completed = False,
                 created_at = toISOString (js_clock e)\<rparr> \<and>
           db' = \<lparr>tasks = tasks db @ [\<lparr>id_of = seq db + 1, title = utf8_text (trim s),
                                       completed = False,
                                       created_at = current_timestamp (db_clock e)\<rparr>],
                  seq = seq db + 1\<rparr>"
proof -
  from assms have v: "validateTaskTitle v"
    by (auto simp: post_tasks_def split: if_splits)
  then obtain s where s: "v = JString s" using validate_is_string by blast
  from assms v s have "\<not> db_err e \<and> seq db < max_rowid"
    by (auto simp: post_tasks_def sql_insert_def Let_def not_le split: if_splits)
  with v s post_valid [of s e db] assms show ?thesis by auto
qed

lemma post_failure:
  assumes "post_tasks e v db = (Inl err, db')"
  shows "db' = db"
proof (cases "validateTaskTitle v")
  case True
  then obtain s where "v = JString s" using validate_is_string by blast
  with True assms show ?thesis
    by (auto simp: post_tasks_def Let_def split: option.splits)
next
  case False
  with assms show ?thesis by (simp add: post_invalid)
qed


lemma seq_empty: "seq empty_db < max_rowid"
  by (simp add: empty_db_def max_rowid_def)

lemma trim_milk: "trim (lit ''Buy milk'') = lit ''Buy milk''"
  by (simp add: trim_def lit_def is_ws_def)

lemma utf8_milk: "utf8_text (lit ''Buy milk'') = lit ''Buy milk''"
  by (simp add: lit_def is_high_def is_low_def)

lemma post_surrogate:
  "post_tasks env0 (JString surrogate_title) empty_db =
     (Inr \<lparr>id_of = 1, title = [0x61, 0xD83D, 0x62], completed = False,
           created_at = ''2026-11-03T11:14:00.123Z''\<rparr>,
      \<lparr>tasks = [\<lparr>id_of = 1, title = [0x61, 0xFFFD, 0x62], completed = False,
                   created_at = ''2026-11-03 11:14:00''\<rparr>],
       seq = 1\<rparr>)"
proof -
  have v: "validateTaskTitle (JString surrogate_title)"
    by (simp add: validate_string lit_def surrogate_title_def)
  have t: "trim surrogate_title = [0x61, 0xD83D, 0x62]"
    by (simp add: trim_def surrogate_title_def is_ws_def)
  have u: "utf8_text [0x61, 0xD83D, 0x62] = [0x61, 0xFFFD, 0x62]"
    by (simp add: is_high_def is_low_def)
  from post_valid [OF v env0_ok seq_empty] show ?thesis
    unfolding t u by (simp add: empty_db_def stamp_env0 iso_env0)
qed

subsection \<open>Claim C1: blank titles\<close>

lemma post_tasks_empty_title_refused:
  "post_tasks e (JString []) db = (Inl InvalidTitle, db)"
  by (simp add: post_invalid validate_string)

lemma post_tasks_not_string_refused:
  "typeof v \<noteq> ''string'' \<Longrightarrow> post_tasks e v db = (Inl InvalidTitle, db)"
  by (simp add: post_invalid validate_not_string)

text \<open>
  C1 says that the empty title and every title made of whitespace only is refused with a
  validation error and that no task is added. The empty string is refused, but
  \<open>validateTaskTitle\<close> measures the title before it is trimmed: the title of one space has
  length 1, passes, and the handler then stores its trimmed form, the empty string, as
  task 1. The client's \<open>addTask\<close> trims before it tests for an empty title.
\<close>

theorem post_tasks_blank_title_accepted:
  "post_tasks env0 (JString (lit '' '')) empty_db =
     (Inr \<lparr>id_of = 1, title = [], completed = False,
           created_at = ''2026-11-03T11:14:00.123Z''\<rparr>,
      \<lparr>tasks = [\<lparr>id_of = 1, title = [], completed = False,
                   created_at = ''2026-11-03 11:14:00''\<rparr>],
       seq = 1\<rparr>)"
proof -
  have v: "validateTaskTitle (JString (lit '' ''))"
    by (simp add: validate_string lit_def)
  from post_valid [OF v env0_ok seq_empty] show ?thesis
    by (simp add: trim_space empty_db_def stamp_env0 iso_env0)
qed

subsection \<open>Claim C3: stored titles\<close>

lemma titles_bounded_empty: "titles_bounded empty_db"
  by (simp add: titles_bounded_def empty_db_def)

lemma titles_bounded_post:
  assumes "titles_bounded db" "post_tasks e v db = (r, db')"
  shows "titles_bounded db'"
proof (cases r)
  case (Inl err)
  with assms(2) have "db' = db" using post_failure by blast
  with assms(1) show ?thesis by simp
next
  case (Inr t)
  with assms(2) post_success [of e v db t db'] obtain s where
    v: "validateTaskTitle (JString s)" and
    db': "tasks db' = tasks db @ [\<lparr>id_of = seq db + 1, title = utf8_text (trim s),
                                     completed = False,
                                     created_at = current_timestamp (db_clock e)\<rparr>]"
    by auto
  from v have "length s \<le> 200" by (simp add: validate_string)
  with length_trim_le [of s] have "length (utf8_text (trim s)) \<le> 200"
    by (simp add: length_utf8_text)
  with assms(1) show ?thesis by (simp add: titles_bounded_def db')
qed

lemma titles_bounded_toggle:
  assumes "titles_bounded db" "put_toggle e s db = (r, db')"
  shows "titles_bounded db'"
proof -
  from assms(2) have "db' = db \<or> db' = db\<lparr>tasks := map (\<lambda>row. if id_matches s row
      then row\<lparr>completed := \<not> completed row\<rparr> else row) (tasks db)\<rparr>"
    by (auto simp: put_toggle_def sql_toggle_def split: if_splits)
  with assms(1) show ?thesis
    by (auto simp: titles_bounded_def list_all_iff)
qed

lemma titles_bounded_delete:
  assumes "titles_bounded db" "delete_task e s db = (r, db')"
  shows "titles_bounded db'"
proof -
  from assms(2) have "db' = db \<or>
      db' = db\<lparr>tasks := filter (\<lambda>row. \<not> id_matches s row) (tasks db)\<rparr>"
    by (auto simp: delete_task_def sql_delete_def split: if_splits)
  with assms(1) show ?thesis
    by (auto simp: titles_bounded_def list_all_iff)
qed

text \<open>
  C3 says that every stored title is non-empty and at most 200 characters long, whatever
  requests were served. The bound of 200 is kept by every request (\<open>titles_bounded\<close>
  above). After the single request that posts a title of one space to the empty store,
  the store holds one task and its title has length 0.
\<close>

theorem empty_title_stored:
  "map title (tasks (snd (post_tasks env0 (JString (lit '' '')) empty_db))) = [[]] \<and>
   map length (map title (tasks (snd (post_tasks env0 (JString (lit '' '')) empty_db)))) = [0]"
proof -
  have v: "validateTaskTitle (JString (lit '' ''))"
    by (simp add: validate_string lit_def)
  from post_valid [OF v env0_ok seq_empty] show ?thesis
    by (simp add: trim_space empty_db_def)
qed

subsection \<open>Claim C6: forbidden substrings\<close>

text \<open>
  C6: every title in which \<open><script\<close> or \<open>javascript:\<close> occurs is refused with the
  validation error (status 400) and the store is left as it was. The test compares code
  units, so a title spelling the substring in capitals passes it.
\<close>

theorem post_tasks_rejects_script:
  assumes "(\<exists>pre suf. s = pre @ lit ''<script'' @ suf) \<or>
           (\<exists>pre suf. s = pre @ lit ''javascript:'' @ suf)"
  shows "post_tasks e (JString s) db = (Inl InvalidTitle, db) \<and> status InvalidTitle = 400 \<and>
         validateTaskTitle (JString (lit ''<SCRIPT'')) \<and>
         validateTaskTitle (JString (lit ''JavaScript:''))"
proof -
  have caps: "validateTaskTitle (JString (lit ''<SCRIPT''))"
    "validateTaskTitle (JString (lit ''JavaScript:''))"
    by (simp_all add: validate_string lit_def)
  from assms have "includes_js s (lit ''<script'') \<or> includes_js s (lit ''javascript:'')"
    by (simp add: includes_js_iff)
  then have "\<not> validateTaskTitle (JString s)" by (auto simp: validate_string)
  then show ?thesis using caps by (simp add: post_invalid)
qed

theorem post_tasks_rejects_script_witness:
  "post_tasks env0 (JString (lit ''x<script>alert(1)</script>'')) empty_db =
     (Inl InvalidTitle, empty_db) \<and>
   post_tasks env0 (JString (lit ''javascript:alert(1)'')) empty_db =
     (Inl InvalidTitle, empty_db)"
proof -
  have a: "lit ''x<script>alert(1)</script>'' = lit ''x'' @ lit ''<script'' @ lit ''>alert(1)</script>''"
    by (simp add: lit_def)
  have b: "lit ''javascript:alert(1)'' = [] @ lit ''javascript:'' @ lit ''alert(1)''"
    by (simp add: lit_def)
  from a have ha: "(\<exists>pre suf. lit ''x<script>alert(1)</script>'' = pre @ lit ''<script'' @ suf) \<or>
           (\<exists>pre suf. lit ''x<script>alert(1)</script>'' = pre @ lit ''javascript:'' @ suf)"
    by blast
  from b have hb: "(\<exists>pre suf. lit ''javascript:alert(1)'' = pre @ lit ''<script'' @ suf) \<or>
           (\<exists>pre suf. lit ''javascript:alert(1)'' = pre @ lit ''javascript:'' @ suf)"
    by blast
  show ?thesis
    using post_tasks_rejects_script [OF ha, of env0 empty_db]
      post_tasks_rejects_script [OF hb, of env0 empty_db] by simp
qed

subsection \<open>Claim C2: when a title is accepted\<close>

lemma padded_length: "length padded_title = 201"
  by (simp add: padded_title_def)

lemma trim_padded: "trim padded_title = replicate 200 0x61"
  by (simp add: trim_def padded_title_def is_ws_def)

lemma padded_clean:
  "\<not> includes_js padded_title (lit ''<script'') \<and> \<not> includes_js padded_title (lit ''javascript:'')"
proof -
  have "set padded_title \<subseteq> {0x20, 0x61}" by (auto simp: padded_title_def)
  moreover have "0x3C \<in> set (lit ''<script'')" "0x3C \<notin> {0x20, 0x61 :: 16 word}"
    "0x6A \<in> set (lit ''javascript:'')" "0x6A \<notin> {0x20, 0x61 :: 16 word}"
    by (simp_all add: lit_def)
  ultimately show ?thesis using includes_js_set by blast
qed

text \<open>
  C2 says that a post succeeds exactly when the trimmed length of the title is between 1
  and 200 and no forbidden substring occurs, and that the stored title is the trimmed form
  of the input. The title made of a space and 200 letters has trimmed length 200 and no
  forbidden substring, and is refused, as the length is tested before the title is
  trimmed. The title \<open>a\<close>, U+D83D, \<open>b\<close> is its own trimmed form and is accepted, and the
  title stored is \<open>a\<close>, U+FFFD, \<open>b\<close>.
\<close>

theorem padded_rejected_surrogate_replaced:
  "length (trim padded_title) = 200 \<and>
   \<not> includes_js padded_title (lit ''<script'') \<and>
   \<not> includes_js padded_title (lit ''javascript:'') \<and>
   post_tasks env0 (JString padded_title) empty_db = (Inl InvalidTitle, empty_db) \<and>
   trim surrogate_title = [0x61, 0xD83D, 0x62] \<and>
   map title (tasks (snd (post_tasks env0 (JString surrogate_title) empty_db))) =
     [[0x61, 0xFFFD, 0x62]]"
proof -
  have "\<not> validateTaskTitle (JString padded_title)"
    by (simp add: validate_string padded_length)
  moreover have "trim surrogate_title = [0x61, 0xD83D, 0x62]"
    by (simp add: trim_def surrogate_title_def is_ws_def)
  ultimately show ?thesis
    by (simp add: post_invalid trim_padded padded_clean post_surrogate)
qed

text \<open>
  C2 as amended, for a store that reports no error. A string title of at most 200 code
  units as received, whose trimmed form is not empty and in which neither forbidden
  substring occurs, is accepted; so is every title of 1 to 200 code units that is its own
  trimmed form. A title that is not a string, is empty, has a trimmed length above 200 or
  holds a forbidden substring is refused with the validation error. On success the title
  returned is the trimmed form of the input and the title stored is that form as UTF-8
  text. Nothing is said of titles of whitespace only, nor of titles that exceed 200 code
  units only before they are trimmed.
\<close>

theorem post_tasks_accepts:
  assumes "\<not> db_err e" and "seq db < max_rowid"
  shows "(\<forall>s. length s \<le> 200 \<and> trim s \<noteq> [] \<and>
              \<not> includes_js s (lit ''<script'') \<and> \<not> includes_js s (lit ''javascript:'') \<longrightarrow>
            post_tasks e (JString s) db =
              (Inr \<lparr>id_of = seq db + 1, title = trim s, completed = False,
                    created_at = toISOString (js_clock e)\<rparr>,
               \<lparr>tasks = tasks db @ [\<lparr>id_of = seq db + 1, title = utf8_text (trim s),
                                       completed = False,
                                       created_at = current_timestamp (db_clock e)\<rparr>],
                seq = seq db + 1\<rparr>)) \<and>
         (typeof v \<noteq> ''string'' \<or>
          (\<exists>s. v = JString s \<and>
               (s = [] \<or> 200 < length (trim s) \<or>
                includes_js s (lit ''<script'') \<or> includes_js s (lit ''javascript:''))) \<longrightarrow>
            post_tasks e v db = (Inl InvalidTitle, db)) \<and>
         (\<forall>t db'. post_tasks e v db = (Inr t, db') \<longrightarrow>
            (\<exists>s. v = JString s \<and> length (trim s) \<le> 200 \<and>
                 \<not> includes_js s (lit ''<script'') \<and> \<not> includes_js s (lit ''javascript:'') \<and>
                 title t = trim s \<and>
                 tasks db' = tasks db @ [\<lparr>id_of = id_of t, title = utf8_text (trim s),
                                          completed = False,
                                          created_at = current_timestamp (db_clock e)\<rparr>]))"
proof -
  have accept: "post_tasks e (JString s) db =
              (Inr \<lparr>id_of = seq db + 1, title = trim s, completed = False,
                    created_at = toISOString (js_clock e)\<rparr>,
               \<lparr>tasks = tasks db @ [\<lparr>id_of = seq db + 1, title = utf8_text (trim s),
                                       completed = False,
                                       created_at = current_timestamp (db_clock e)\<rparr>],
                seq = seq db + 1\<rparr>)"
    if s: "length s \<le> 200 \<and> trim s \<noteq> [] \<and>
              \<not> includes_js s (lit ''<script'') \<and> \<not> includes_js s (lit ''javascript:'')" for s
  proof -
    from s have "s \<noteq> []" by (auto simp: trim_def)
    then have "1 \<le> length s" by (cases s) auto
    with s have "validateTaskTitle (JString s)" by (simp add: validate_string)
    then show ?thesis using assms by (rule post_valid)
  qed
  have refuse: "post_tasks e v db = (Inl InvalidTitle, db)"
    if bad: "typeof v \<noteq> ''string'' \<or>
          (\<exists>s. v = JString s \<and>
               (s = [] \<or> 200 < length (trim s) \<or>
                includes_js s (lit ''<script'') \<or> includes_js s (lit ''javascript:'')))"
  proof -
    have "\<not> validateTaskTitle v"
    proof
      assume ok: "validateTaskTitle v"
      then obtain s where v: "v = JString s" using validate_is_string by blast
      with ok have "1 \<le> length s \<and> length s \<le> 200 \<and>
          \<not> includes_js s (lit ''<script'') \<and> \<not> includes_js s (lit ''javascript:'')"
        by (simp add: validate_string)
      moreover have "length (trim s) \<le> length s" by (rule length_trim_le)
      ultimately show False using bad v by auto
    qed
    then show ?thesis by (rule post_invalid)
  qed
  have success: "\<exists>s. v = JString s \<and> length (trim s) \<le> 200 \<and>
                 \<not> includes_js s (lit ''<script'') \<and> \<not> includes_js s (lit ''javascript:'') \<and>
                 title t = trim s \<and>
                 tasks db' = tasks db @ [\<lparr>id_of = id_of t, title = utf8_text (trim s),
                                          completed = False,
                                          created_at = current_timestamp (db_clock e)\<rparr>]"
    if post: "post_tasks e v db = (Inr t, db')" for t db'
  proof -
    from post_success [OF post] obtain s where
      s: "v = JString s" "validateTaskTitle v"
        "t = \<lparr>id_of = seq db + 1, title = trim s, completed = False,
              created_at = toISOString (js_clock e)\<rparr>"
        "db' = \<lparr>tasks = tasks db @ [\<lparr>id_of = seq db + 1, title = utf8_text (trim s),
                                       completed = False,
                                       created_at = current_timestamp (db_clock e)\<rparr>],
                seq = seq db + 1\<rparr>"
      by blast
    from s(1,2) have "length s \<le> 200 \<and>
        \<not> includes_js s (lit ''<script'') \<and> \<not> includes_js s (lit ''javascript:'')"
      by (simp add: validate_string)
    moreover have "length (trim s) \<le> length s" by (rule length_trim_le)
    ultimately show ?thesis using s by auto
  qed
  from accept refuse success show ?thesis by blast
qed

theorem post_tasks_accepts_witness:
  "\<not> db_err env0 \<and> seq empty_db < max_rowid \<and>
   length (lit ''Buy milk'') \<le> 200 \<and> trim (lit ''Buy milk'') \<noteq> [] \<and>
   post_tasks env0 (JString (lit ''Buy milk'')) empty_db =
     (Inr \<lparr>id_of = 1, title = lit ''Buy milk'', completed = False,
           created_at = ''2026-11-03T11:14:00.123Z''\<rparr>,
      \<lparr>tasks = [\<lparr>id_of = 1, title = lit ''Buy milk'', completed = False,
                   created_at = ''2026-11-03 11:14:00''\<rparr>],
       seq = 1\<rparr>) \<and>
   post_tasks env0 JNull empty_db = (Inl InvalidTitle, empty_db)"
proof -
  have clean: "\<not> includes_js (lit ''Buy milk'') (lit ''<script'')"
    "\<not> includes_js (lit ''Buy milk'') (lit ''javascript:'')"
    by (simp_all add: lit_def)
  have len: "length (lit ''Buy milk'') \<le> 200" "trim (lit ''Buy milk'') \<noteq> []"
    by (simp_all add: trim_milk) (simp_all add: lit_def)
  have null: "typeof JNull \<noteq> ''string''" by simp
  show ?thesis
    using post_tasks_accepts [OF env0_ok seq_empty, of JNull] clean len null env0_ok seq_empty
    by (simp add: trim_milk utf8_milk empty_db_def stamp_env0 iso_env0)
qed

subsection \<open>Identifiers and the statements on one row\<close>

lemma test_digits_iff: "test_digits s \<longleftrightarrow> s \<noteq> [] \<and> (\<forall>c\<in>set s. is_digit c)"
  by (cases s) (auto simp: dropWhile_eq_Nil_conv)

lemma id_matches_completed [simp]:
  "id_matches s (row\<lparr>completed := b\<rparr>) = id_matches s row"
  by (simp add: id_matches_def)

lemma map_unmatched:
  "\<forall>row\<in>set rows. \<not> P row \<Longrightarrow> map (\<lambda>row. if P row then f row else row) rows = rows"
  by (induction rows) auto

lemma filter_unmatched: "\<forall>row\<in>set rows. \<not> P row \<Longrightarrow> filter P rows = []"
  by (induction rows) auto

lemma filter_all_kept: "\<forall>row\<in>set rows. \<not> P row \<Longrightarrow> filter (\<lambda>row. \<not> P row) rows = rows"
  by (induction rows) auto

lemma put_toggle_missing:
  assumes "\<not> db_err e" "test_digits s" "\<forall>row\<in>set (tasks db). \<not> id_matches s row"
  shows "put_toggle e s db = (Inl TaskNotFound, db)"
  using assms by (simp add: put_toggle_def sql_toggle_def map_unmatched filter_unmatched)

lemma delete_task_missing:
  assumes "\<not> db_err e" "test_digits s" "\<forall>row\<in>set (tasks db). \<not> id_matches s row"
  shows "delete_task e s db = (Inl TaskNotFound, db)"
  using assms by (simp add: delete_task_def sql_delete_def filter_all_kept filter_unmatched)

lemma put_toggle_found:
  assumes "\<not> db_err e" "test_digits s" "\<exists>row\<in>set (tasks db). id_matches s row"
  shows "put_toggle e s db =
     (Inr Success, db\<lparr>tasks := map (\<lambda>row. if id_matches s row
                                         then row\<lparr>completed := \<not> completed row\<rparr> else row)
                                  (tasks db)\<rparr>)"
proof -
  from assms(3) have "filter (id_matches s) (tasks db) \<noteq> []"
    by (simp add: filter_empty_conv)
  with assms(1,2) show ?thesis by (simp add: put_toggle_def sql_toggle_def)
qed

lemma delete_task_found:
  assumes "\<not> db_err e" "test_digits s" "\<exists>row\<in>set (tasks db). id_matches s row"
  shows "delete_task e s db =
     (Inr Success, db\<lparr>tasks := filter (\<lambda>row. \<not> id_matches s row) (tasks db)\<rparr>)"
proof -
  from assms(3) have "filter (id_matches s) (tasks db) \<noteq> []"
    by (simp add: filter_empty_conv)
  with assms(1,2) show ?thesis by (simp add: delete_task_def sql_delete_def)
qed

lemma mset_insert_desc: "mset (insert_desc r rows) = add_mset r (mset rows)"
  by (induction rows) auto

lemma mset_order_by: "mset (order_by_created_at_desc rows) = mset rows"
  unfolding order_by_created_at_desc_def by (induction rows) (auto simp: mset_insert_desc)

lemma set_order_by: "set (order_by_created_at_desc rows) = set rows"
  using mset_order_by [of rows] by (metis set_mset_mset)

subsection \<open>Stores that requests produce\<close>

lemma store_ok_empty: "store_ok empty_db"
  by (simp add: store_ok_def empty_db_def)

lemma store_ok_post:
  assumes "store_ok db" "post_tasks e v db = (r, db')"
  shows "store_ok db'"
proof (cases "validateTaskTitle v \<and> \<not> db_err e \<and> seq db < max_rowid")
  case True
  then obtain s where v: "v = JString s" using validate_is_string by blast
  with True assms(2) have db': "db' = \<lparr>tasks = tasks db @ [\<lparr>id_of = seq db + 1,
      title = utf8_text (trim s),
      completed = False, created_at = current_timestamp (db_clock e)\<rparr>], seq = seq db + 1\<rparr>"
    by (simp add: post_valid)
  from assms(1) have "\<forall>row\<in>set (tasks db). id_of row \<noteq> seq db + 1"
    by (auto simp: store_ok_def list_all_iff)
  with assms(1) True show ?thesis
    unfolding db' by (auto simp: store_ok_def list_all_iff)
next
  case False
  with assms(2) have "db' = db"
    by (cases v) (auto simp: post_tasks_def sql_insert_def split: if_splits)
  with assms(1) show ?thesis by simp
qed

lemma store_ok_toggle:
  assumes "store_ok db" "put_toggle e s db = (r, db')"
  shows "store_ok db'"
proof -
  define g where "g = (\<lambda>row. if id_matches s row
      then row\<lparr>completed := \<not> completed row\<rparr> else row)"
  have ids: "id_of (g row) = id_of row" for row by (simp add: g_def)
  then have comp: "id_of \<circ> g = id_of" by (simp add: fun_eq_iff)
  from assms(2) have "db' = db \<or> db' = db\<lparr>tasks := map g (tasks db)\<rparr>"
    by (auto simp: put_toggle_def sql_toggle_def g_def split: if_splits)
  then show ?thesis
  proof
    assume "db' = db" with assms(1) show ?thesis by simp
  next
    assume d: "db' = db\<lparr>tasks := map g (tasks db)\<rparr>"
    from assms(1) show ?thesis
      unfolding d store_ok_def by (simp add: comp ids list_all_iff)
  qed
qed

lemma store_ok_delete:
  assumes "store_ok db" "delete_task e s db = (r, db')"
  shows "store_ok db'"
proof -
  from assms(2) have "db' = db \<or>
      db' = db\<lparr>tasks := filter (\<lambda>row. \<not> id_matches s row) (tasks db)\<rparr>"
    by (auto simp: delete_task_def sql_delete_def split: if_splits)
  then show ?thesis
  proof
    assume "db' = db" with assms(1) show ?thesis by simp
  next
    assume d: "db' = db\<lparr>tasks := filter (\<lambda>row. \<not> id_matches s row) (tasks db)\<rparr>"
    from assms(1) show ?thesis
      unfolding d store_ok_def by (simp add: distinct_map_filter list_all_iff)
  qed
qed


subsection \<open>Concrete stores\<close>

lemma decimal_one: "decimal_value (lit ''1'') = 1"
  by (simp add: decimal_value_def digit_value_def lit_def)

lemma decimal_seven: "decimal_value (lit ''7'') = 7"
  by (simp add: decimal_value_def digit_value_def lit_def)

lemma digits_one: "lit ''1'' \<noteq> [] \<and> (\<forall>c\<in>set (lit ''1''). is_digit c)"
  by (simp add: lit_def is_digit_def)

lemma digits_seven: "lit ''7'' \<noteq> [] \<and> (\<forall>c\<in>set (lit ''7''). is_digit c)"
  by (simp add: lit_def is_digit_def)

lemma post_milk:
  "post_tasks env0 (JString (lit ''Buy milk'')) empty_db =
     (Inr \<lparr>id_of = 1, title = lit ''Buy milk'', completed = False,
           created_at = ''2026-11-03T11:14:00.123Z''\<rparr>, db_milk)"
proof -
  have v: "validateTaskTitle (JString (lit ''Buy milk''))"
    by (simp add: validate_string lit_def)
  from post_valid [OF v env0_ok seq_empty] show ?thesis
    by (simp add: trim_milk utf8_milk empty_db_def stamp_env0 iso_env0 db_milk_def milk_row_def)
qed

lemma store_ok_milk: "store_ok db_milk"
  using store_ok_post [OF store_ok_empty post_milk] .

subsection \<open>Claim C7: malformed identifiers\<close>

text \<open>
  C7: when the \<open>id\<close> parameter is not a non-empty string of decimal digits, toggling and
  deleting both answer with the request-format error \<open>Invalid task ID\<close> (status 400), which
  is not the not-found error (status 404). The answer and the store returned are the same
  for every store and every environment, also one in which SQLite would report an error:
  no statement is run.
\<close>

theorem malformed_id_rejected:
  assumes "\<not> (s \<noteq> [] \<and> (\<forall>c\<in>set s. is_digit c))"
  shows "put_toggle e s db = (Inl InvalidTaskId, db) \<and>
         delete_task e s db = (Inl InvalidTaskId, db) \<and>
         InvalidTaskId \<noteq> TaskNotFound \<and>
         status InvalidTaskId = 400 \<and> status TaskNotFound = 404"
proof -
  from assms have "\<not> test_digits s" by (simp add: test_digits_iff)
  then show ?thesis by (simp add: put_toggle_def delete_task_def)
qed

theorem malformed_id_rejected_witness:
  "\<not> (lit ''abc'' \<noteq> [] \<and> (\<forall>c\<in>set (lit ''abc''). is_digit c)) \<and>
   \<not> (lit ''-1'' \<noteq> [] \<and> (\<forall>c\<in>set (lit ''-1''). is_digit c)) \<and>
   put_toggle (env0\<lparr>db_err := True\<rparr>) (lit ''abc'') db_milk = (Inl InvalidTaskId, db_milk) \<and>
   delete_task env0 (lit ''-1'') db_milk = (Inl InvalidTaskId, db_milk)"
proof -
  have a: "\<not> (lit ''abc'' \<noteq> [] \<and> (\<forall>c\<in>set (lit ''abc''). is_digit c))"
    by (simp add: lit_def is_digit_def)
  have b: "\<not> (lit ''-1'' \<noteq> [] \<and> (\<forall>c\<in>set (lit ''-1''). is_digit c))"
    by (simp add: lit_def is_digit_def)
  show ?thesis
    using a b malformed_id_rejected [OF a, of "env0\<lparr>db_err := True\<rparr>" db_milk]
      malformed_id_rejected [OF b, of env0 db_milk]
    by simp
qed

subsection \<open>Claim C8: identifiers of no task\<close>

text \<open>
  C8: when SQLite reports no error and the \<open>id\<close> parameter is a string of digits whose
  value is the id of no task, toggling and deleting answer with the not-found error and
  return the store as it was, so the listing is the same as before. After a delete that
  succeeded, the listing holds no task of that id, and a second delete of the same id
  answers with the not-found error.
\<close>

theorem missing_id_not_found:
  assumes "\<not> db_err e" and "s \<noteq> [] \<and> (\<forall>c\<in>set s. is_digit c)"
  shows "(decimal_value s \<notin> id_of ` set (tasks db) \<longrightarrow>
            put_toggle e s db = (Inl TaskNotFound, db) \<and>
            delete_task e s db = (Inl TaskNotFound, db) \<and>
            get_tasks e (snd (put_toggle e s db)) = get_tasks e db \<and>
            get_tasks e (snd (delete_task e s db)) = get_tasks e db) \<and>
         (\<forall>db'. delete_task e s db = (Inr Success, db') \<longrightarrow>
            (\<exists>rows. get_tasks e db' = Inr rows \<and> decimal_value s \<notin> id_of ` set rows) \<and>
            delete_task e s db' = (Inl TaskNotFound, db')) \<and>
         status TaskNotFound = 404"
proof -
  from assms(2) have wf: "test_digits s" by (simp add: test_digits_iff)
  have first: "put_toggle e s db = (Inl TaskNotFound, db) \<and>
            delete_task e s db = (Inl TaskNotFound, db) \<and>
            get_tasks e (snd (put_toggle e s db)) = get_tasks e db \<and>
            get_tasks e (snd (delete_task e s db)) = get_tasks e db"
    if "decimal_value s \<notin> id_of ` set (tasks db)"
  proof -
    have "\<not> id_matches s row" if "row \<in> set (tasks db)" for row
    proof
      assume "id_matches s row"
      then have "id_of row = decimal_value s" by (simp add: id_matches_def)
      with \<open>row \<in> set (tasks db)\<close> have "decimal_value s \<in> id_of ` set (tasks db)"
        by (metis imageI)
      with \<open>decimal_value s \<notin> id_of ` set (tasks db)\<close> show False by contradiction
    qed
    then have "\<forall>row\<in>set (tasks db). \<not> id_matches s row" by blast
    then show ?thesis
      using assms(1) wf by (simp add: put_toggle_missing delete_task_missing)
  qed
  have second: "(\<exists>rows. get_tasks e db' = Inr rows \<and> decimal_value s \<notin> id_of ` set rows) \<and>
            delete_task e s db' = (Inl TaskNotFound, db')"
    if del: "delete_task e s db = (Inr Success, db')" for db'
  proof -
    have hit: "\<exists>row\<in>set (tasks db). id_matches s row"
    proof (rule ccontr)
      assume "\<not> (\<exists>row\<in>set (tasks db). id_matches s row)"
      then have "delete_task e s db = (Inl TaskNotFound, db)"
        using assms(1) wf by (simp add: delete_task_missing)
      with del show False by simp
    qed
    then have small: "decimal_value s \<le> max_rowid" by (auto simp: id_matches_def)
    from del delete_task_found [OF assms(1) wf hit]
    have db': "db' = db\<lparr>tasks := filter (\<lambda>row. \<not> id_matches s row) (tasks db)\<rparr>" by simp
    then have gone: "\<forall>row\<in>set (tasks db'). \<not> id_matches s row" by simp
    with small have "decimal_value s \<notin> id_of ` set (tasks db')"
      by (auto simp: id_matches_def)
    moreover have "get_tasks e db' = Inr (order_by_created_at_desc (tasks db'))"
      using assms(1) by (simp add: get_tasks_def sql_select_def)
    moreover have "delete_task e s db' = (Inl TaskNotFound, db')"
      using assms(1) wf gone by (rule delete_task_missing)
    ultimately show ?thesis by (simp add: set_order_by)
  qed
  from first second show ?thesis by simp
qed

theorem missing_id_not_found_witness:
  "\<not> db_err env0 \<and> lit ''7'' \<noteq> [] \<and> list_all is_digit (lit ''7'') \<and>
   lit ''1'' \<noteq> [] \<and> list_all is_digit (lit ''1'') \<and>
   decimal_value (lit ''7'') \<notin> id_of ` set (tasks db_milk) \<and>
   put_toggle env0 (lit ''7'') db_milk = (Inl TaskNotFound, db_milk) \<and>
   delete_task env0 (lit ''7'') db_milk = (Inl TaskNotFound, db_milk) \<and>
   delete_task env0 (lit ''1'') db_milk = (Inr Success, \<lparr>tasks = [], seq = 1\<rparr>) \<and>
   delete_task env0 (lit ''1'') \<lparr>tasks = [], seq = 1\<rparr> =
     (Inl TaskNotFound, \<lparr>tasks = [], seq = 1\<rparr>)"
proof -
  have miss: "decimal_value (lit ''7'') \<notin> id_of ` set (tasks db_milk)"
    by (simp add: decimal_seven db_milk_def milk_row_def)
  have "id_matches (lit ''1'') milk_row"
    by (simp add: id_matches_def decimal_one milk_row_def max_rowid_def)
  then have del: "delete_task env0 (lit ''1'') db_milk = (Inr Success, \<lparr>tasks = [], seq = 1\<rparr>)"
    using digits_one
    by (simp add: delete_task_def sql_delete_def env0_ok test_digits_iff db_milk_def)
  show ?thesis
    using miss del env0_ok digits_one digits_seven
      missing_id_not_found [OF env0_ok digits_seven, of db_milk]
      missing_id_not_found [OF env0_ok digits_one, of db_milk]
    by (simp add: list_all_iff)
qed


subsection \<open>Claim C9: toggling twice\<close>

lemma toggle_found_rows:
  assumes "\<not> db_err e" "test_digits s" "store_ok db"
    "decimal_value s \<in> id_of ` set (tasks db)"
  shows "put_toggle e s db =
     (Inr Success, db\<lparr>tasks := map (\<lambda>row. if id_of row = decimal_value s
                                         then row\<lparr>completed := \<not> completed row\<rparr> else row)
                                  (tasks db)\<rparr>)"
proof -
  from assms(3,4) have "decimal_value s \<le> max_rowid"
    by (auto simp: store_ok_def list_all_iff)
  then have m: "id_matches s = (\<lambda>row. id_of row = decimal_value s)"
    by (auto simp: id_matches_def fun_eq_iff)
  from assms(4) have "\<exists>row\<in>set (tasks db). id_matches s row"
    unfolding m by auto
  from put_toggle_found [OF assms(1,2) this] show ?thesis unfolding m .
qed

lemma toggle_id_rows_twice:
  "map ((\<lambda>row. if id_of row = x then row\<lparr>completed := \<not> completed row\<rparr> else row) \<circ>
        (\<lambda>row. if id_of row = x then row\<lparr>completed := \<not> completed row\<rparr> else row)) rows = rows"
  by (induction rows) auto

lemma toggle_id_rows_ids:
  "id_of ` set (map (\<lambda>row. if id_of row = x then row\<lparr>completed := \<not> completed row\<rparr> else row) rows)
     = id_of ` set rows"
  by (induction rows) auto

lemma filter_toggle_id_rows:
  "filter (\<lambda>row. id_of row = x)
     (map (\<lambda>row. if id_of row = x then row\<lparr>completed := \<not> completed row\<rparr> else row) rows) =
   map (\<lambda>row. row\<lparr>completed := \<not> completed row\<rparr>) (filter (\<lambda>row. id_of row = x) rows)"
  by (induction rows) auto

lemma toggle_pair_any:
  assumes e1: "\<not> db_err e1" and e2: "\<not> db_err e2" and wf: "test_digits s" and ok: "store_ok db"
    and ex: "decimal_value s \<in> id_of ` set (tasks db)"
  shows "\<exists>db1. put_toggle e1 s db = (Inr Success, db1) \<and>
           tasks db1 = map (\<lambda>row. if id_of row = decimal_value s
                                   then row\<lparr>completed := \<not> completed row\<rparr> else row) (tasks db) \<and>
           put_toggle e2 s db1 = (Inr Success, db)"
proof -
  define db1 where "db1 = db\<lparr>tasks := map (\<lambda>row. if id_of row = decimal_value s
                                   then row\<lparr>completed := \<not> completed row\<rparr> else row) (tasks db)\<rparr>"
  have one: "put_toggle e1 s db = (Inr Success, db1)"
    unfolding db1_def using e1 wf ok ex by (rule toggle_found_rows)
  then have ok1: "store_ok db1" using ok store_ok_toggle by blast
  have "id_of ` set (tasks db1) = id_of ` set (tasks db)"
    unfolding db1_def using toggle_id_rows_ids [of "decimal_value s" "tasks db"] by simp
  with ex have ex1: "decimal_value s \<in> id_of ` set (tasks db1)" by simp
  have "put_toggle e2 s db1 = (Inr Success, db)"
    using toggle_found_rows [OF e2 wf ok1 ex1]
    by (simp add: db1_def toggle_id_rows_twice)
  with one show ?thesis by (simp add: db1_def)
qed

text \<open>
  C9: when SQLite reports no error, in a store that requests can produce, toggling the id
  of an existing task succeeds and negates the \<open>completed\<close> flag of that task and of no
  other; toggling it a second time succeeds and gives back the store from before the
  first. After a post has returned a task, the task of that id is stored with
  \<open>completed\<close> false, the first toggle makes it true and the second restores the store,
  where it is false.
\<close>

theorem toggle_twice_restores:
  assumes "\<not> db_err e1" and "\<not> db_err e2" and "s \<noteq> [] \<and> (\<forall>c\<in>set s. is_digit c)"
    and "store_ok db"
  shows "(decimal_value s \<in> id_of ` set (tasks db) \<longrightarrow>
           (\<exists>db1. put_toggle e1 s db = (Inr Success, db1) \<and>
              tasks db1 = map (\<lambda>row. if id_of row = decimal_value s
                                      then row\<lparr>completed := \<not> completed row\<rparr> else row)
                              (tasks db) \<and>
              put_toggle e2 s db1 = (Inr Success, db))) \<and>
         (\<forall>e0 v t db0. post_tasks e0 v db = (Inr t, db0) \<and> id_of t = decimal_value s \<longrightarrow>
           (\<exists>db1. map completed (filter (\<lambda>row. id_of row = id_of t) (tasks db0)) = [False] \<and>
              put_toggle e1 s db0 = (Inr Success, db1) \<and>
              map completed (filter (\<lambda>row. id_of row = id_of t) (tasks db1)) = [True] \<and>
              put_toggle e2 s db1 = (Inr Success, db0)))"
proof -
  from assms(3) have wf: "test_digits s" by (simp add: test_digits_iff)
  have second: "\<exists>db1. map completed (filter (\<lambda>row. id_of row = id_of t) (tasks db0)) = [False] \<and>
              put_toggle e1 s db0 = (Inr Success, db1) \<and>
              map completed (filter (\<lambda>row. id_of row = id_of t) (tasks db1)) = [True] \<and>
              put_toggle e2 s db1 = (Inr Success, db0)"
    if post: "post_tasks e0 v db = (Inr t, db0)" and x: "id_of t = decimal_value s"
    for e0 v t db0
  proof -
    from post_success [OF post] obtain u where
      t: "id_of t = seq db + 1" and
      db0: "tasks db0 = tasks db @ [\<lparr>id_of = seq db + 1, title = utf8_text (trim u),
                                       completed = False,
                                       created_at = current_timestamp (db_clock e0)\<rparr>]"
      by auto
    have ok0: "store_ok db0" using assms(4) post by (rule store_ok_post)
    from assms(4) have old: "filter (\<lambda>row. id_of row = seq db + 1) (tasks db) = []"
      by (auto simp: store_ok_def list_all_iff filter_empty_conv)
    have f0: "filter (\<lambda>row. id_of row = id_of t) (tasks db0) =
        [\<lparr>id_of = seq db + 1, title = utf8_text (trim u), completed = False,
          created_at = current_timestamp (db_clock e0)\<rparr>]"
      using old by (simp add: t db0)
    have ex0: "decimal_value s \<in> id_of ` set (tasks db0)"
      using x t by (simp add: db0)
    from toggle_pair_any [OF assms(1,2) wf ok0 ex0] obtain db1 where
      d1: "put_toggle e1 s db0 = (Inr Success, db1)"
      "tasks db1 = map (\<lambda>row. if id_of row = decimal_value s
                                   then row\<lparr>completed := \<not> completed row\<rparr> else row) (tasks db0)"
      "put_toggle e2 s db1 = (Inr Success, db0)" by blast
    have "filter (\<lambda>row. id_of row = id_of t) (tasks db1) =
        map (\<lambda>row. row\<lparr>completed := \<not> completed row\<rparr>)
          (filter (\<lambda>row. id_of row = id_of t) (tasks db0))"
      unfolding d1(2) x by (rule filter_toggle_id_rows)
    then have "map completed (filter (\<lambda>row. id_of row = id_of t) (tasks db1)) = [True]"
      by (simp add: f0)
    with d1 f0 show ?thesis by simp
  qed
  from toggle_pair_any [OF assms(1,2) wf assms(4)] second show ?thesis by blast
qed

theorem toggle_twice_restores_witness:
  "\<not> db_err env1 \<and> \<not> db_err env2 \<and>
   lit ''1'' \<noteq> [] \<and> list_all is_digit (lit ''1'') \<and> store_ok empty_db \<and>
   store_ok db_milk \<and> decimal_value (lit ''1'') \<in> id_of ` set (tasks db_milk) \<and>
   put_toggle env1 (lit ''1'') db_milk =
     (Inr Success, \<lparr>tasks = [milk_row\<lparr>completed := True\<rparr>], seq = 1\<rparr>) \<and>
   put_toggle env2 (lit ''1'') \<lparr>tasks = [milk_row\<lparr>completed := True\<rparr>], seq = 1\<rparr> =
     (Inr Success, db_milk)"
proof -
  have e: "\<not> db_err env1" "\<not> db_err env2" by (simp_all add: env1_def env2_def)
  have ex: "decimal_value (lit ''1'') \<in> id_of ` set (tasks db_milk)"
    by (simp add: decimal_one db_milk_def milk_row_def)
  have fresh: "post_tasks env0 (JString (lit ''Buy milk'')) empty_db =
      (Inr \<lparr>id_of = 1, title = lit ''Buy milk'', completed = False,
            created_at = ''2026-11-03T11:14:00.123Z''\<rparr>, db_milk) \<and>
      id_of \<lparr>id_of = 1, title = lit ''Buy milk'', completed = False,
            created_at = ''2026-11-03T11:14:00.123Z''\<rparr> = decimal_value (lit ''1'')"
    by (simp add: post_milk decimal_one)
  have a: "\<exists>db1. put_toggle env1 (lit ''1'') db_milk = (Inr Success, db1) \<and>
      tasks db1 = map (\<lambda>row. if id_of row = decimal_value (lit ''1'')
                              then row\<lparr>completed := \<not> completed row\<rparr> else row) (tasks db_milk) \<and>
      put_toggle env2 (lit ''1'') db1 = (Inr Success, db_milk)"
    using toggle_twice_restores [OF e digits_one store_ok_milk] ex by blast
  have b: "\<exists>db1. put_toggle env1 (lit ''1'') db_milk = (Inr Success, db1) \<and>
      map completed (filter (\<lambda>row. id_of row = 1) (tasks db1)) = [True] \<and>
      put_toggle env2 (lit ''1'') db1 = (Inr Success, db_milk)"
    using toggle_twice_restores [OF e digits_one store_ok_empty] fresh by fastforce
  have m: "id_matches (lit ''1'') milk_row"
    by (simp add: id_matches_def decimal_one milk_row_def max_rowid_def)
  have one: "put_toggle env1 (lit ''1'') db_milk =
     (Inr Success, \<lparr>tasks = [milk_row\<lparr>completed := True\<rparr>], seq = 1\<rparr>)"
    using m e digits_one
    by (simp add: put_toggle_def sql_toggle_def test_digits_iff db_milk_def milk_row_def)
  with a have "put_toggle env2 (lit ''1'') \<lparr>tasks = [milk_row\<lparr>completed := True\<rparr>], seq = 1\<rparr> =
     (Inr Success, db_milk)" by auto
  with one e digits_one ex store_ok_empty store_ok_milk show ?thesis
    by (simp add: list_all_iff)
qed


subsection \<open>Claim C10: titles in the rendered list\<close>

lemma replace_all_mem:
  "x \<in> set (replace_all c rep s) \<Longrightarrow> (x \<in> set s \<and> x \<noteq> c) \<or> x \<in> set rep"
  by (auto simp: replace_all_def split: if_splits)

lemma escapeHtml_no_markup: "filter is_markup (escapeHtml s) = []"
proof -
  have "\<not> is_markup x" if "x \<in> set (escapeHtml s)" for x
  proof -
    from that have
      "(x \<noteq> 0x27 \<and> x \<noteq> 0x22 \<and> x \<noteq> 0x3E \<and> x \<noteq> 0x3C) \<or>
       x \<in> set (lit ''&#039;'') \<or> x \<in> set (lit ''&quot;'') \<or> x \<in> set (lit ''&gt;'') \<or>
       x \<in> set (lit ''&lt;'') \<or> x \<in> set (lit ''&amp;'')"
      unfolding escapeHtml_def by (blast dest: replace_all_mem)
    then show ?thesis by (auto simp: is_markup_def lit_def)
  qed
  then show ?thesis by (simp add: filter_empty_conv)
qed

lemma escapeHtml_Nil: "escapeHtml [] = []"
  by (simp add: escapeHtml_def replace_all_def)

lemma render_task_title:
  "\<exists>pre post. \<forall>x. render_task formatDate (task\<lparr>title := x\<rparr>) = pre @ escapeHtml x @ post"
proof -
  have \<open>\<forall>x. render_task formatDate (task\<lparr>title := x\<rparr>) =
      (lit ''\<newline>        <div class="task-item '' @
       lit (if completed task then ''completed'' else []) @
       lit ''" data-task-id="'' @ lit (decimal_text (id_of task)) @ lit ''">'' @
       lit ''\<newline>            <div class="task-checkbox '' @
       lit (if completed task then ''checked'' else []) @
       lit ''" \<newline>                 onclick="toggleTask('' @
       lit (decimal_text (id_of task)) @ lit '')"></div>'' @
       lit ''\<newline>            <div class="task-title '' @
       lit (if completed task then ''completed'' else []) @
       lit ''">'') @ escapeHtml x @
      (lit ''</div>'' @
       lit ''\<newline>            <div class="task-date">'' @ formatDate (created_at task) @
       lit ''</div>'' @
       lit ''\<newline>            <div class="task-actions">'' @
       lit ''\<newline>                <button class="btn-small btn-delete" onclick="deleteTask('' @
       lit (decimal_text (id_of task)) @ lit '')">Delete</button>'' @
       lit ''\<newline>            </div>'' @
       lit ''\<newline>        </div>\<newline>    '')\<close>
    by (simp add: render_task_def)
  then show ?thesis by blast
qed

lemma render_task_markup:
  "filter is_markup (render_task formatDate task) =
   filter is_markup (render_task formatDate (task\<lparr>title := []\<rparr>))"
proof -
  obtain pre post where
    r: "\<forall>x. render_task formatDate (task\<lparr>title := x\<rparr>) = pre @ escapeHtml x @ post"
    using render_task_title by blast
  from r have "render_task formatDate (task\<lparr>title := title task\<rparr>) =
      pre @ escapeHtml (title task) @ post" by blast
  moreover from r have "render_task formatDate (task\<lparr>title := []\<rparr>) = pre @ escapeHtml [] @ post"
    by blast
  ultimately show ?thesis by (simp add: escapeHtml_no_markup)
qed

lemma filter_concat_map:
  "filter P (concat (map f xs)) = concat (map (\<lambda>x. filter P (f x)) xs)"
  by (induction xs) auto

text \<open>
  C10: the result of \<open>escapeHtml\<close> holds none of the characters \<open><\<close>, \<open>>\<close>, the double
  quote and the single quote. The markup of one task is a text before, the escaped title
  and a text after, and the two texts do not depend on the title; so the markup
  characters of the rendered list are those of the list rendered with every title
  emptied: no title contributes one.
\<close>

theorem titles_rendered_escaped:
  "filter is_markup (escapeHtml s) = [] \<and>
   (\<exists>pre post. \<forall>x. render_task formatDate (task\<lparr>title := x\<rparr>) = pre @ escapeHtml x @ post) \<and>
   filter is_markup (renderTasks formatDate ts) =
     filter is_markup (renderTasks formatDate (map (\<lambda>t. t\<lparr>title := []\<rparr>) ts))"
proof -
  have "filter is_markup (renderTasks formatDate ts) =
     filter is_markup (renderTasks formatDate (map (\<lambda>t. t\<lparr>title := []\<rparr>) ts))"
  proof (cases ts)
    case Nil
    then show ?thesis by (simp add: renderTasks_def)
  next
    case (Cons t rest)
    have "concat (map (\<lambda>x. filter is_markup (render_task formatDate x)) ts) =
          concat (map (\<lambda>x. filter is_markup (render_task formatDate (x\<lparr>title := []\<rparr>))) ts)"
      using render_task_markup [of formatDate] by simp
    with Cons show ?thesis
      by (simp add: renderTasks_def filter_concat_map comp_def del: filter_concat)
  qed
  with escapeHtml_no_markup render_task_title show ?thesis by blast
qed

lemma escapeHtml_example:
  \<open>escapeHtml (lit ''<img src=x onerror="alert(1)">'') =
     lit ''&lt;img src=x onerror=&quot;alert(1)&quot;&gt;''\<close>
  by (simp add: escapeHtml_def replace_all_def lit_def)


subsection \<open>The listing and the timestamps\<close>

lemma set_insert_desc: "set (insert_desc r rows) = insert r (set rows)"
  by (induction rows) auto

lemma sorted_insert_desc: "sorted_desc rows \<Longrightarrow> sorted_desc (insert_desc r rows)"
  unfolding sorted_desc_def
  by (induction rows) (auto simp: set_insert_desc)

lemma sorted_order_by: "sorted_desc (order_by_created_at_desc rows)"
proof (induction rows)
  case Nil
  show ?case by (simp add: order_by_created_at_desc_def sorted_desc_def)
next
  case (Cons r rows)
  then show ?case
    using sorted_insert_desc [of "order_by_created_at_desc rows" r]
    by (simp add: order_by_created_at_desc_def)
qed

lemma get_tasks_ok:
  "\<not> db_err e \<Longrightarrow> get_tasks e db = Inr (order_by_created_at_desc (tasks db))"
  by (simp add: get_tasks_def sql_select_def)

lemma order_three:
  assumes "created_at a < created_at b" "created_at b < created_at c"
  shows "order_by_created_at_desc [a, b, c] = [c, b, a]"
proof -
  from assms have "created_at a < created_at c" by (rule less_trans)
  with assms show ?thesis
    by (simp add: order_by_created_at_desc_def not_le)
qed

lemma order_ties:
  assumes "created_at a = created_at b" "created_at b = created_at c"
  shows "order_by_created_at_desc [a, b, c] = [a, b, c]"
  using assms by (simp add: order_by_created_at_desc_def)

subsection \<open>Claim C4: the order of the listing\<close>

lemma stamp_env1: "current_timestamp (db_clock env1) = ''2026-11-03 11:14:01''"
  by (simp add: env1_def current_timestamp_def civil_20760 clock_text_def pad2_def pad4_def
      digit_char_def)

lemma stamp_env2: "current_timestamp (db_clock env2) = ''2026-11-03 11:14:02''"
  by (simp add: env2_def current_timestamp_def civil_20760 clock_text_def pad2_def pad4_def
      digit_char_def)

lemma stamp_env0b: "current_timestamp (db_clock env0b) = ''2026-11-03 11:14:00''"
  using stamp_env0 by (simp add: env0_def env0b_def)

lemma stamp_env0c: "current_timestamp (db_clock env0c) = ''2026-11-03 11:14:00''"
  using stamp_env0 by (simp add: env0_def env0c_def)

lemma post_letter:
  assumes "\<not> is_ws c \<and> \<not> is_high c \<and> \<not> is_low c" "c \<noteq> 0x3C" "c \<noteq> 0x6A"
    "\<not> db_err e" "seq db < max_rowid"
  shows "post_tasks e (JString [c]) db =
     (Inr \<lparr>id_of = seq db + 1, title = [c], completed = False,
           created_at = toISOString (js_clock e)\<rparr>,
      \<lparr>tasks = tasks db @ [\<lparr>id_of = seq db + 1, title = [c], completed = False,
                              created_at = current_timestamp (db_clock e)\<rparr>],
       seq = seq db + 1\<rparr>)"
proof -
  from assms(2,3) have "validateTaskTitle (JString [c])"
    by (simp add: validate_string lit_def)
  moreover from assms(1) have "trim [c] = [c]" "utf8_text [c] = [c]" by (simp_all add: trim_def)
  ultimately show ?thesis using post_valid [of "[c]" e db] assms(4,5) by simp
qed

text \<open>
  C4 says that the listing is ordered by \<open>created_at\<close> descending with ties broken by
  \<open>id\<close> descending, so that tasks created as A, B, C are listed as C, B, A. The
  statement orders by \<open>created_at\<close> alone, a text with a resolution of one second: posted
  within one second to the empty store, A, B and C carry the same \<open>created_at\<close> and are
  listed as A, B, C, ids ascending.
\<close>

theorem same_second_listing:
  "get_tasks env0
     (snd (post_tasks env0c (JString (lit ''C''))
       (snd (post_tasks env0b (JString (lit ''B''))
         (snd (post_tasks env0 (JString (lit ''A'')) empty_db)))))) =
   Inr [\<lparr>id_of = 1, title = lit ''A'', completed = False, created_at = ''2026-11-03 11:14:00''\<rparr>,
        \<lparr>id_of = 2, title = lit ''B'', completed = False, created_at = ''2026-11-03 11:14:00''\<rparr>,
        \<lparr>id_of = 3, title = lit ''C'', completed = False, created_at = ''2026-11-03 11:14:00''\<rparr>] \<and>
   \<not> sorted_desc_id_desc
     [\<lparr>id_of = 1, title = lit ''A'', completed = False, created_at = ''2026-11-03 11:14:00''\<rparr>,
      \<lparr>id_of = 2, title = lit ''B'', completed = False, created_at = ''2026-11-03 11:14:00''\<rparr>,
      \<lparr>id_of = 3, title = lit ''C'', completed = False, created_at = ''2026-11-03 11:14:00''\<rparr>]"
proof -
  have e: "\<not> db_err env0" "\<not> db_err env0b" "\<not> db_err env0c"
    by (simp_all add: env0_def env0b_def env0c_def)
  have ws: "\<not> is_ws 0x41 \<and> \<not> is_high 0x41 \<and> \<not> is_low 0x41"
    "\<not> is_ws 0x42 \<and> \<not> is_high 0x42 \<and> \<not> is_low 0x42"
    "\<not> is_ws 0x43 \<and> \<not> is_high 0x43 \<and> \<not> is_low 0x43"
    by (simp_all add: is_ws_def is_high_def is_low_def)
  have a: "snd (post_tasks env0 (JString (lit ''A'')) empty_db) =
      \<lparr>tasks = [\<lparr>id_of = 1, title = lit ''A'', completed = False,
                  created_at = ''2026-11-03 11:14:00''\<rparr>], seq = 1\<rparr>"
    using post_letter [OF ws(1) _ _ e(1) seq_empty]
    by (simp add: lit_def empty_db_def stamp_env0)
  have b: "snd (post_tasks env0b (JString (lit ''B'')) \<lparr>tasks = [\<lparr>id_of = 1, title = lit ''A'',
        completed = False, created_at = ''2026-11-03 11:14:00''\<rparr>], seq = 1\<rparr>) =
      \<lparr>tasks = [\<lparr>id_of = 1, title = lit ''A'', completed = False,
                  created_at = ''2026-11-03 11:14:00''\<rparr>,
                \<lparr>id_of = 2, title = lit ''B'', completed = False,
                  created_at = ''2026-11-03 11:14:00''\<rparr>], seq = 2\<rparr>"
    using post_letter [OF ws(2) _ _ e(2), of "\<lparr>tasks = [\<lparr>id_of = 1, title = lit ''A'',
        completed = False, created_at = ''2026-11-03 11:14:00''\<rparr>], seq = 1\<rparr>"]
    by (simp add: lit_def stamp_env0b max_rowid_def)
  have c: "snd (post_tasks env0c (JString (lit ''C'')) \<lparr>tasks = [\<lparr>id_of = 1, title = lit ''A'',
        completed = False, created_at = ''2026-11-03 11:14:00''\<rparr>,
                \<lparr>id_of = 2, title = lit ''B'', completed = False,
                  created_at = ''2026-11-03 11:14:00''\<rparr>], seq = 2\<rparr>) =
      \<lparr>tasks = [\<lparr>id_of = 1, title = lit ''A'', completed = False,
                  created_at = ''2026-11-03 11:14:00''\<rparr>,
                \<lparr>id_of = 2, title = lit ''B'', completed = False,
                  created_at = ''2026-11-03 11:14:00''\<rparr>,
                \<lparr>id_of = 3, title = lit ''C'', completed = False,
                  created_at = ''2026-11-03 11:14:00''\<rparr>], seq = 3\<rparr>"
    using post_letter [OF ws(3) _ _ e(3), of "\<lparr>tasks = [\<lparr>id_of = 1, title = lit ''A'',
        completed = False, created_at = ''2026-11-03 11:14:00''\<rparr>,
                \<lparr>id_of = 2, title = lit ''B'', completed = False,
                  created_at = ''2026-11-03 11:14:00''\<rparr>], seq = 2\<rparr>"]
    by (simp add: lit_def stamp_env0c max_rowid_def)
  show ?thesis
    unfolding a b c
    by (simp add: get_tasks_ok e order_ties sorted_desc_id_desc_def)
qed

text \<open>
  C4 as amended: when SQLite reports no error, the listing holds exactly the stored tasks,
  ordered by \<open>created_at\<close> descending; and when A, B and C are posted in that order to the
  empty store and their stored \<open>created_at\<close> texts are strictly increasing, the listing is
  C, B, A.
\<close>

theorem get_tasks_newest_first:
  assumes "\<not> db_err e"
  shows "(\<exists>rows. get_tasks e db = Inr rows \<and> mset rows = mset (tasks db) \<and> sorted_desc rows) \<and>
         (\<forall>eA eB eC a b c tA tB tC dbA dbB dbC.
            post_tasks eA (JString a) empty_db = (Inr tA, dbA) \<and>
            post_tasks eB (JString b) dbA = (Inr tB, dbB) \<and>
            post_tasks eC (JString c) dbB = (Inr tC, dbC) \<and>
            current_timestamp (db_clock eA) < current_timestamp (db_clock eB) \<and>
            current_timestamp (db_clock eB) < current_timestamp (db_clock eC) \<longrightarrow>
            (\<exists>rows. get_tasks e dbC = Inr rows \<and>
               map id_of rows = [id_of tC, id_of tB, id_of tA]))"
proof -
  have first: "\<exists>rows. get_tasks e db = Inr rows \<and> mset rows = mset (tasks db) \<and> sorted_desc rows"
    using assms by (simp add: get_tasks_ok mset_order_by sorted_order_by)
  have second: "\<exists>rows. get_tasks e dbC = Inr rows \<and>
               map id_of rows = [id_of tC, id_of tB, id_of tA]"
    if pa: "post_tasks eA (JString a) empty_db = (Inr tA, dbA)"
      and pb: "post_tasks eB (JString b) dbA = (Inr tB, dbB)"
      and pc: "post_tasks eC (JString c) dbB = (Inr tC, dbC)"
      and ab: "current_timestamp (db_clock eA) < current_timestamp (db_clock eB)"
      and bc: "current_timestamp (db_clock eB) < current_timestamp (db_clock eC)"
    for eA eB eC a b c tA tB tC dbA dbB dbC
  proof -
    define rA where "rA = \<lparr>id_of = seq empty_db + 1, title = utf8_text (trim a), completed = False,
        created_at = current_timestamp (db_clock eA)\<rparr>"
    define rB where "rB = \<lparr>id_of = seq dbA + 1, title = utf8_text (trim b), completed = False,
        created_at = current_timestamp (db_clock eB)\<rparr>"
    define rC where "rC = \<lparr>id_of = seq dbB + 1, title = utf8_text (trim c), completed = False,
        created_at = current_timestamp (db_clock eC)\<rparr>"
    from post_success [OF pa] have a: "id_of tA = id_of rA" "tasks dbA = [rA]"
      by (auto simp: rA_def empty_db_def)
    from post_success [OF pb] have b: "id_of tB = id_of rB" "tasks dbB = tasks dbA @ [rB]"
      by (auto simp: rB_def)
    from post_success [OF pc] have c: "id_of tC = id_of rC" "tasks dbC = tasks dbB @ [rC]"
      by (auto simp: rC_def)
    have "created_at rA < created_at rB" "created_at rB < created_at rC"
      using ab bc by (simp_all add: rA_def rB_def rC_def)
    then have "order_by_created_at_desc [rA, rB, rC] = [rC, rB, rA]" by (rule order_three)
    then have "get_tasks e dbC = Inr [rC, rB, rA]"
      using assms a b c by (simp add: get_tasks_ok)
    then show ?thesis using a b c by simp
  qed
  from first second show ?thesis by blast
qed


theorem get_tasks_newest_first_witness:
  "\<not> db_err env2 \<and>
   current_timestamp (db_clock env0) < current_timestamp (db_clock env1) \<and>
   current_timestamp (db_clock env1) < current_timestamp (db_clock env2) \<and>
   (\<exists>rows. get_tasks env2
       (snd (post_tasks env2 (JString (lit ''C''))
         (snd (post_tasks env1 (JString (lit ''B''))
           (snd (post_tasks env0 (JString (lit ''A'')) empty_db)))))) = Inr rows \<and>
      map id_of rows = [3, 2, 1])"
proof -
  have e: "\<not> db_err env0" "\<not> db_err env1" "\<not> db_err env2"
    by (simp_all add: env0_def env1_def env2_def)
  have ws: "\<not> is_ws 0x41 \<and> \<not> is_high 0x41 \<and> \<not> is_low 0x41"
    "\<not> is_ws 0x42 \<and> \<not> is_high 0x42 \<and> \<not> is_low 0x42"
    "\<not> is_ws 0x43 \<and> \<not> is_high 0x43 \<and> \<not> is_low 0x43"
    by (simp_all add: is_ws_def is_high_def is_low_def)
  have ab: "current_timestamp (db_clock env0) < current_timestamp (db_clock env1)"
    by (simp add: stamp_env0 stamp_env1)
  have bc: "current_timestamp (db_clock env1) < current_timestamp (db_clock env2)"
    by (simp add: stamp_env1 stamp_env2)
  define dbA where "dbA = snd (post_tasks env0 (JString (lit ''A'')) empty_db)"
  define dbB where "dbB = snd (post_tasks env1 (JString (lit ''B'')) dbA)"
  define dbC where "dbC = snd (post_tasks env2 (JString (lit ''C'')) dbB)"
  have pa: "post_tasks env0 (JString (lit ''A'')) empty_db =
      (Inr \<lparr>id_of = 1, title = lit ''A'', completed = False,
            created_at = toISOString (js_clock env0)\<rparr>, dbA)" and sa: "seq dbA = 1"
    unfolding dbA_def using post_letter [OF ws(1) _ _ e(1) seq_empty]
    by (simp_all add: lit_def empty_db_def)
  have pb: "post_tasks env1 (JString (lit ''B'')) dbA =
      (Inr \<lparr>id_of = 2, title = lit ''B'', completed = False,
            created_at = toISOString (js_clock env1)\<rparr>, dbB)" and sb: "seq dbB = 2"
    unfolding dbB_def using post_letter [OF ws(2) _ _ e(2), of dbA] sa
    by (simp_all add: lit_def max_rowid_def)
  have pc: "post_tasks env2 (JString (lit ''C'')) dbB =
      (Inr \<lparr>id_of = 3, title = lit ''C'', completed = False,
            created_at = toISOString (js_clock env2)\<rparr>, dbC)"
    unfolding dbC_def using post_letter [OF ws(3) _ _ e(3), of dbB] sb
    by (simp_all add: lit_def max_rowid_def)
  from get_tasks_newest_first [OF e(3)] pa pb pc ab bc
  have "\<exists>rows. get_tasks env2 dbC = Inr rows \<and>
      map id_of rows = [id_of \<lparr>id_of = 3, title = lit ''C'', completed = False,
            created_at = toISOString (js_clock env2)\<rparr>,
         id_of \<lparr>id_of = 2, title = lit ''B'', completed = False,
            created_at = toISOString (js_clock env1)\<rparr>,
         id_of \<lparr>id_of = 1, title = lit ''A'', completed = False,
            created_at = toISOString (js_clock env0)\<rparr>]"
    by blast
  then show ?thesis
    using e(3) ab bc by (simp add: dbA_def dbB_def dbC_def)
qed

subsection \<open>Claim C5: the response of a post\<close>

lemma filter_order_by_single:
  assumes "filter P rows = [r]"
  shows "filter P (order_by_created_at_desc rows) = [r]"
proof -
  have "mset (filter P (order_by_created_at_desc rows)) = mset (filter P rows)"
    by (simp add: mset_order_by)
  with assms have "mset (filter P (order_by_created_at_desc rows)) = {#r#}" by simp
  then show ?thesis by (simp only: mset_single_iff)
qed

lemma is_dec_digit_char: "is_dec (digit_char n)"
proof -
  have "n mod 10 < length ''0123456789''" by simp
  then have "''0123456789'' ! (n mod 10) \<in> set ''0123456789''" by (rule nth_mem)
  then show ?thesis by (simp only: is_dec_def digit_char_def)
qed

lemma shaped_length: "shaped p s \<Longrightarrow> length s = length p"
  by (induction p s rule: shaped.induct) auto

lemma sqlite_current_timestamp: "sqlite_datetime (current_timestamp secs)"
  by (simp add: sqlite_datetime_def current_timestamp_def clock_text_def pad2_def pad4_def
      is_dec_digit_char split: prod.split)

lemma iso8601_toISOString: "iso8601 (toISOString ms)"
  by (simp add: iso8601_def toISOString_def clock_text_def pad2_def pad3_def pad4_def pad6_def
      is_dec_digit_char split: prod.split)

lemma sqlite_not_iso: "sqlite_datetime s \<Longrightarrow> \<not> iso8601 s"
  by (auto simp: sqlite_datetime_def iso8601_def dest!: shaped_length)


text \<open>
  C5 says that a post returns the task as persisted, with the \<open>id\<close>, \<open>title\<close>,
  \<open>completed\<close> and \<open>created_at\<close> that a later listing reports, and that \<open>created_at\<close> is
  an ISO-8601 string in every task response. The handler does not read the row back. For
  \<open>Buy milk\<close> posted to the empty store it answers with its own clock rendered by
  \<open>toISOString\<close> and with \<open>completed\<close> as the boolean false, while the listing reports
  SQLite's \<open>CURRENT_TIMESTAMP\<close>, which is not of the ISO-8601 form, and \<open>completed\<close> as the
  integer 0. For the title \<open>a\<close>, U+D83D, \<open>b\<close> it answers with that title, while the
  listing reports \<open>a\<close>, U+FFFD, \<open>b\<close>.
\<close>

theorem created_at_differs:
  "post_tasks env0 (JString (lit ''Buy milk'')) empty_db =
     (Inr \<lparr>id_of = 1, title = lit ''Buy milk'', completed = False,
           created_at = ''2026-11-03T11:14:00.123Z''\<rparr>, db_milk) \<and>
   get_tasks env0 db_milk =
     Inr [\<lparr>id_of = 1, title = lit ''Buy milk'', completed = False,
           created_at = ''2026-11-03 11:14:00''\<rparr>] \<and>
   ''2026-11-03T11:14:00.123Z'' \<noteq> ''2026-11-03 11:14:00'' \<and>
   \<not> iso8601 ''2026-11-03 11:14:00'' \<and>
   posted_completed_json \<lparr>id_of = 1, title = lit ''Buy milk'', completed = False,
           created_at = ''2026-11-03T11:14:00.123Z''\<rparr> = JBoolean False \<and>
   listed_completed_json \<lparr>id_of = 1, title = lit ''Buy milk'', completed = False,
           created_at = ''2026-11-03 11:14:00''\<rparr> = JNumber 0 \<and>
   fst (post_tasks env0 (JString surrogate_title) empty_db) =
     Inr \<lparr>id_of = 1, title = [0x61, 0xD83D, 0x62], completed = False,
          created_at = ''2026-11-03T11:14:00.123Z''\<rparr> \<and>
   get_tasks env0 (snd (post_tasks env0 (JString surrogate_title) empty_db)) =
     Inr [\<lparr>id_of = 1, title = [0x61, 0xFFFD, 0x62], completed = False,
           created_at = ''2026-11-03 11:14:00''\<rparr>]"
proof -
  have "get_tasks env0 db_milk = Inr [milk_row]"
    by (simp add: get_tasks_ok env0_ok db_milk_def order_by_created_at_desc_def)
  moreover have "\<not> iso8601 ''2026-11-03 11:14:00''"
    by (simp add: iso8601_def)
  ultimately show ?thesis
    by (simp add: post_milk milk_row_def post_surrogate get_tasks_ok env0_ok
        order_by_created_at_desc_def posted_completed_json_def listed_completed_json_def)
qed

text \<open>
  C5 as amended: after a successful post to a store that requests can produce, a listing
  on which SQLite reports no error holds exactly one task of the returned id. Its title
  is the returned title as UTF-8 text, the same whenever that holds no surrogate code
  unit. \<open>completed\<close> is the boolean false in the post's response and the integer 0 in
  the listing. The returned \<open>created_at\<close> is the handler's clock as an ISO-8601 string;
  the listed \<open>created_at\<close> is SQLite's \<open>YYYY-MM-DD HH:MM:SS\<close> text, which is not of the
  ISO-8601 form and differs from the returned one.
\<close>

theorem post_tasks_response:
  assumes "store_ok db" and "post_tasks e v db = (Inr t, db')" and "\<not> db_err e'"
  shows "\<exists>rows row. get_tasks e' db' = Inr rows \<and>
           filter (\<lambda>r. id_of r = id_of t) rows = [row] \<and>
           title row = utf8_text (title t) \<and>
           (list_all (\<lambda>c. \<not> is_high c \<and> \<not> is_low c) (title t) \<longrightarrow> title row = title t) \<and>
           posted_completed_json t = JBoolean False \<and>
           listed_completed_json row = JNumber 0 \<and>
           created_at t = toISOString (js_clock e) \<and> iso8601 (created_at t) \<and>
           created_at row = current_timestamp (db_clock e) \<and>
           sqlite_datetime (created_at row) \<and> \<not> iso8601 (created_at row) \<and>
           created_at row \<noteq> created_at t"
proof -
  from post_success [OF assms(2)] obtain s where
    t: "t = \<lparr>id_of = seq db + 1, title = trim s, completed = False,
             created_at = toISOString (js_clock e)\<rparr>" and
    db': "tasks db' = tasks db @ [\<lparr>id_of = seq db + 1, title = utf8_text (trim s),
                                   completed = False,
                                   created_at = current_timestamp (db_clock e)\<rparr>]"
    by auto
  define row where "row = \<lparr>id_of = seq db + 1, title = utf8_text (trim s), completed = False,
                                   created_at = current_timestamp (db_clock e)\<rparr>"
  from assms(1) have old: "filter (\<lambda>r. id_of r = seq db + 1) (tasks db) = []"
    by (auto simp: store_ok_def list_all_iff filter_empty_conv)
  have "filter (\<lambda>r. id_of r = id_of t) (tasks db') = [row]"
    using old by (simp add: t db' row_def)
  then have f: "filter (\<lambda>r. id_of r = id_of t) (order_by_created_at_desc (tasks db')) = [row]"
    by (rule filter_order_by_single)
  have shape: "sqlite_datetime (created_at row)" "iso8601 (created_at t)"
    by (simp_all add: row_def t sqlite_current_timestamp iso8601_toISOString)
  then have "\<not> iso8601 (created_at row)" using sqlite_not_iso by blast
  with shape have "created_at row \<noteq> created_at t" by auto
  with f shape \<open>\<not> iso8601 (created_at row)\<close> show ?thesis
    using assms(3)
    by (simp add: get_tasks_ok t row_def posted_completed_json_def listed_completed_json_def
        utf8_text_plain list_all_iff)
qed

theorem post_tasks_response_witness:
  "store_ok empty_db \<and> \<not> db_err env1 \<and>
   post_tasks env0 (JString surrogate_title) empty_db =
     (Inr \<lparr>id_of = 1, title = [0x61, 0xD83D, 0x62], completed = False,
           created_at = ''2026-11-03T11:14:00.123Z''\<rparr>,
      \<lparr>tasks = [\<lparr>id_of = 1, title = [0x61, 0xFFFD, 0x62], completed = False,
                   created_at = ''2026-11-03 11:14:00''\<rparr>],
       seq = 1\<rparr>) \<and>
   (\<exists>rows row. get_tasks env1 \<lparr>tasks = [\<lparr>id_of = 1, title = [0x61, 0xFFFD, 0x62],
                   completed = False, created_at = ''2026-11-03 11:14:00''\<rparr>], seq = 1\<rparr> =
        Inr rows \<and>
      filter (\<lambda>r. id_of r = 1) rows = [row] \<and> title row = [0x61, 0xFFFD, 0x62] \<and>
      listed_completed_json row = JNumber 0 \<and>
      created_at row \<noteq> ''2026-11-03T11:14:00.123Z'')"
proof -
  have e: "\<not> db_err env1" by (simp add: env1_def)
  from post_tasks_response [OF store_ok_empty post_surrogate e] obtain rows row where
    r: "get_tasks env1 \<lparr>tasks = [\<lparr>id_of = 1, title = [0x61, 0xFFFD, 0x62],
          completed = False, created_at = ''2026-11-03 11:14:00''\<rparr>], seq = 1\<rparr> = Inr rows"
      "filter (\<lambda>r. id_of r = id_of \<lparr>id_of = 1, title = [0x61, 0xD83D, 0x62],
          completed = False, created_at = ''2026-11-03T11:14:00.123Z''\<rparr>) rows = [row]"
      "title row = utf8_text (title \<lparr>id_of = 1, title = [0x61, 0xD83D, 0x62],
          completed = False, created_at = ''2026-11-03T11:14:00.123Z''\<rparr>)"
      "listed_completed_json row = JNumber 0"
      "created_at row \<noteq> created_at \<lparr>id_of = 1, title = [0x61, 0xD83D, 0x62],
          completed = False, created_at = ''2026-11-03T11:14:00.123Z''\<rparr>"
    by blast
  from r(2,3,5) have "filter (\<lambda>r. id_of r = 1) rows = [row]"
    "title row = [0x61, 0xFFFD, 0x62]" "created_at row \<noteq> ''2026-11-03T11:14:00.123Z''"
    by (simp_all add: is_high_def is_low_def)
  with r(1,4) have "\<exists>rows row. get_tasks env1 \<lparr>tasks = [\<lparr>id_of = 1, title = [0x61, 0xFFFD, 0x62],
                   completed = False, created_at = ''2026-11-03 11:14:00''\<rparr>], seq = 1\<rparr> =
        Inr rows \<and>
      filter (\<lambda>r. id_of r = 1) rows = [row] \<and> title row = [0x61, 0xFFFD, 0x62] \<and>
      listed_completed_json row = JNumber 0 \<and>
      created_at row \<noteq> ''2026-11-03T11:14:00.123Z''"
    by blast
  with e store_ok_empty post_surrogate show ?thesis by (simp only: simp_thms)
qed

end
